theory Spec2Isabelle
  imports Main "HOL-Library.Log_Nat" "HOL-Library.Multiset"
begin

section \<open>Strings as the daemons use them\<close>

text \<open>
  Status strings come from sysfs pseudo-files and are ASCII; a string is a list of
  one-byte characters.  \<open>str.strip()\<close> removes the leading and trailing characters
  for which \<open>str.isspace()\<close> holds (in the ASCII range: TAB, LF, VT, FF, CR, the
  separators 0x1C-0x1F and the blank); \<open>str.lower()\<close> maps A-Z to a-z.
\<close>

definition is_py_space :: "char \<Rightarrow> bool" where
  "is_py_space c = (c \<in> set [CHR 0x09, CHR 0x0A, CHR 0x0B, CHR 0x0C, CHR 0x0D,
                              CHR 0x1C, CHR 0x1D, CHR 0x1E, CHR 0x1F, CHR 0x20])"

definition strip :: "string \<Rightarrow> string" where
  "strip s = rev (dropWhile is_py_space (rev (dropWhile is_py_space s)))"

definition lower_char :: "char \<Rightarrow> char" where
  "lower_char c =
     (case map_of (zip ''ABCDEFGHIJKLMNOPQRSTUVWXYZ'' ''abcdefghijklmnopqrstuvwxyz'') c of
        Some l \<Rightarrow> l
      | None \<Rightarrow> c)"

definition lower :: "string \<Rightarrow> string" where
  "lower s = map lower_char s"

text \<open>\<open>s.startswith(needle)\<close> and the substring test \<open>needle in s\<close>.\<close>

fun startswith :: "string \<Rightarrow> string \<Rightarrow> bool" where
  "startswith s [] = True"
| "startswith [] (n # ns) = False"
| "startswith (c # cs) (n # ns) = (c = n \<and> startswith cs ns)"

fun py_in :: "string \<Rightarrow> string \<Rightarrow> bool" where
  "py_in needle [] = (needle = [])"
| "py_in needle (c # cs) = (startswith (c # cs) needle \<or> py_in needle cs)"

section \<open>Battery status classification (combined\_service.py)\<close>

definition charging_states :: "string list" where
  "charging_states = [''charging'']"

definition discharging_states :: "string list" where
  "discharging_states = [''discharging'', ''not charging'']"

text \<open>The loop \<open>for state in states: if state in status_clean: flag = True; break\<close>.\<close>

fun first_state_in :: "string list \<Rightarrow> string \<Rightarrow> bool" where
  "first_state_in [] status_clean = False"
| "first_state_in (state # rest) status_clean =
     (if py_in state status_clean then True else first_state_in rest status_clean)"

definition parse_battery_status :: "string \<Rightarrow> bool" where
  "parse_battery_status status_str =
     (let status_clean = lower (strip status_str);
          is_charging = first_state_in charging_states status_clean;
          is_discharging = first_state_in discharging_states status_clean
      in is_charging \<and> \<not> is_discharging)"

section \<open>Workspace list (window\_service.py)\<close>

text \<open>
  One element of the compositor's \<open>j/workspaces\<close> answer, as far as the daemon looks
  at it: a JSON object whose keys \<open>id\<close>, \<open>name\<close> and \<open>windows\<close> may be
  missing (\<open>None\<close>).  \<open>fetch_result\<close> is what \<open>_fetch_hyprland_data\<close> hands
  back: nothing, a JSON object, or a JSON list.
\<close>

record raw_workspace =
  raw_id :: "int option"
  raw_name :: "string option"
  raw_windows :: "int option"

record workspace_entry =
  ws_id :: int
  ws_name :: "string option"
  ws_windows :: int

datatype fetch_result = NoData | JsonObject | JsonList "raw_workspace list"

text \<open>\<open>ws.get("id", 0)\<close> and the dictionary built for an entry that is kept.\<close>

definition get_id :: "raw_workspace \<Rightarrow> int" where
  "get_id ws = (case raw_id ws of None \<Rightarrow> 0 | Some i \<Rightarrow> i)"

definition entry_of :: "raw_workspace \<Rightarrow> workspace_entry" where
  "entry_of ws =
     \<lparr>ws_id = get_id ws,
      ws_name = raw_name ws,
      ws_windows = (case raw_windows ws of None \<Rightarrow> 0 | Some n \<Rightarrow> n)\<rparr>"

text \<open>The loop appending to \<open>filtered_workspaces\<close>.\<close>

fun filtered_workspaces :: "raw_workspace list \<Rightarrow> workspace_entry list" where
  "filtered_workspaces [] = []"
| "filtered_workspaces (ws # rest) =
     (if get_id ws \<ge> 0 then entry_of ws # filtered_workspaces rest
      else filtered_workspaces rest)"

text \<open>
  \<open>list.sort(key=...)\<close> is a stable sort, as \<^const>\<open>sort_key\<close> is.  An empty list
  is falsy, so it takes the final \<open>return []\<close>.
\<close>

definition get_hyprland_all_workspaces_list :: "fetch_result \<Rightarrow> workspace_entry list" where
  "get_hyprland_all_workspaces_list data =
     (case data of
        JsonList wss \<Rightarrow> if wss \<noteq> [] then sort_key ws_id (filtered_workspaces wss) else []
      | _ \<Rightarrow> [])"

section \<open>Clock adapter (time\_service.py)\<close>

text \<open>
  The fields of \<open>datetime.now()\<close> that the daemon reads; \<open>weekday\<close> counts from
  Monday = 0 and \<open>month\<close> from January = 1.  \<open>strftime\<close> is taken in the C locale.
\<close>

record datetime =
  month :: nat
  day :: nat
  weekday :: nat
  hour :: nat
  minute :: nat
  second :: nat

record time_info =
  time_str :: string
  day_name :: string
  date_str :: string
  full_display :: string

definition digit_char :: "nat \<Rightarrow> char" where
  "digit_char n = ''0123456789'' ! (n mod 10)"

fun decimal :: "nat \<Rightarrow> string" where
  "decimal n = (if n < 10 then [digit_char n] else decimal (n div 10) @ [digit_char n])"

declare decimal.simps [simp del]

definition two_digits :: "nat \<Rightarrow> string" where
  "two_digits n = [digit_char (n div 10), digit_char n]"

definition strftime_HM :: "datetime \<Rightarrow> string" where
  "strftime_HM now = two_digits (hour now) @ '':'' @ two_digits (minute now)"

definition strftime_a :: "datetime \<Rightarrow> string" where
  "strftime_a now = [''Mon'', ''Tue'', ''Wed'', ''Thu'', ''Fri'', ''Sat'', ''Sun''] ! (weekday now mod 7)"

definition strftime_b :: "datetime \<Rightarrow> string" where
  "strftime_b now =
     [''Jan'', ''Feb'', ''Mar'', ''Apr'', ''May'', ''Jun'',
      ''Jul'', ''Aug'', ''Sep'', ''Oct'', ''Nov'', ''Dec''] ! ((month now - 1) mod 12)"

definition get_ordinal_suffix :: "nat \<Rightarrow> string" where
  "get_ordinal_suffix d =
     (if 10 \<le> d mod 100 \<and> d mod 100 \<le> 20 then ''th''
      else if d mod 10 = 1 then ''st''
      else if d mod 10 = 2 then ''nd''
      else if d mod 10 = 3 then ''rd''
      else ''th'')"

definition get_formatted_time :: "datetime \<Rightarrow> time_info" where
  "get_formatted_time now =
     (let t = strftime_HM now;
          dn = strftime_a now;
          suffix = get_ordinal_suffix (day now);
          ds = decimal (day now) @ suffix @ '' '' @ strftime_b now
      in \<lparr>time_str = t, day_name = dn, date_str = ds,
          full_display = t @ '', '' @ dn @ '', '' @ ds\<rparr>)"

text \<open>
  One pass of the \<open>monitor_time\<close> loop body up to the sleep: the stored record after
  the pass, and whether \<open>notify_clients\<close> was called.
\<close>

definition monitor_time_step :: "time_info \<Rightarrow> datetime \<Rightarrow> time_info \<times> bool" where
  "monitor_time_step current_time_info now =
     (let new_time_info = get_formatted_time now
      in if time_str new_time_info \<noteq> time_str current_time_info
         then (new_time_info, True)
         else (current_time_info, False))"

section \<open>Numbers as Python computes them\<close>

text \<open>
  \<open>int(s)\<close> on a string that \<open>strip()\<close> has already trimmed: an optional sign, a
  digit, then digits with single underscores allowed between them.  \<open>None\<close> stands
  for \<open>ValueError\<close>.
\<close>

definition digit_val :: "char \<Rightarrow> nat option" where
  "digit_val c = map_of (zip ''0123456789'' [0, 1, 2, 3, 4, 5, 6, 7, 8, 9]) c"

fun digits_from :: "nat \<Rightarrow> string \<Rightarrow> nat option" where
  "digits_from acc [] = Some acc"
| "digits_from acc [c] =
     (case digit_val c of None \<Rightarrow> None | Some v \<Rightarrow> Some (acc * 10 + v))"
| "digits_from acc (c # d # ds) =
     (if c = CHR ''_''
      then (case digit_val d of None \<Rightarrow> None | Some v \<Rightarrow> digits_from (acc * 10 + v) ds)
      else (case digit_val c of None \<Rightarrow> None | Some v \<Rightarrow> digits_from (acc * 10 + v) (d # ds)))"

definition parse_unsigned :: "string \<Rightarrow> nat option" where
  "parse_unsigned s =
     (case s of
        [] \<Rightarrow> None
      | c # cs \<Rightarrow> (case digit_val c of None \<Rightarrow> None | Some v \<Rightarrow> digits_from v cs))"

definition py_int_of_str :: "string \<Rightarrow> int option" where
  "py_int_of_str t =
     (case t of
        [] \<Rightarrow> None
      | c # cs \<Rightarrow>
          if c = CHR ''-'' then map_option (\<lambda>n. - int n) (parse_unsigned cs)
          else if c = CHR ''+'' then map_option int (parse_unsigned cs)
          else map_option int (parse_unsigned t))"

text \<open>
  Python floats are IEEE 754 binary64 numbers.  \<open>B64 m x\<close> stands for \<open>m * 2 ^ x\<close>.
  \<open>round_binary64 n d\<close> is the binary64 number nearest to the fraction \<open>n / d\<close>
  (\<open>d > 0\<close>), ties to even, with gradual underflow; \<open>None\<close> when the result is
  beyond the largest finite float.
\<close>

datatype binary64 = B64 (mant: int) (expo: int)

definition round_half_even :: "int \<Rightarrow> int \<Rightarrow> int" where
  "round_half_even n d =
     (let q = n div d; r = n mod d
      in if 2 * r < d then q
         else if d < 2 * r then q + 1
         else if even q then q else q + 1)"

definition floor_log2 :: "int \<Rightarrow> int \<Rightarrow> int" where
  "floor_log2 n d =
     (let k = bitlen n - bitlen d
      in if d * 2 ^ nat k \<le> n * 2 ^ nat (- k) then k else k - 1)"

definition round_binary64 :: "int \<Rightarrow> int \<Rightarrow> binary64 option" where
  "round_binary64 n d =
     (if n = 0 then Some (B64 0 0)
      else
        let a = \<bar>n\<bar>;
            e = floor_log2 a d;
            x = max (e - 52) (- 1074);
            m = round_half_even (a * 2 ^ nat (- x)) (d * 2 ^ nat x)
        in if 971 < x \<or> (x = 971 \<and> 2 ^ 53 \<le> m) then None
           else Some (B64 (sgn n * m) x))"

text \<open>
  \<open>a / b\<close> on two ints is the correctly rounded quotient; it raises
  \<open>ZeroDivisionError\<close> or \<open>OverflowError\<close> (\<open>None\<close>).  \<open>f * k\<close> for a small int
  \<open>k\<close> is the correctly rounded product; beyond the finite range it is \<open>inf\<close>
  (\<open>None\<close>), on which \<open>int()\<close> raises \<open>OverflowError\<close>.  \<open>int(f)\<close> truncates
  towards zero.
\<close>

definition py_truediv :: "int \<Rightarrow> int \<Rightarrow> binary64 option" where
  "py_truediv a b = (if b = 0 then None else round_binary64 (a * sgn b) \<bar>b\<bar>)"

definition float_mul :: "binary64 \<Rightarrow> int \<Rightarrow> binary64 option" where
  "float_mul f k =
     (if 0 \<le> expo f then round_binary64 (mant f * k * 2 ^ nat (expo f)) 1
      else round_binary64 (mant f * k) (2 ^ nat (- expo f)))"

definition py_trunc :: "binary64 \<Rightarrow> int" where
  "py_trunc f =
     (if 0 \<le> expo f then mant f * 2 ^ nat (expo f)
      else sgn (mant f) * (\<bar>mant f\<bar> div 2 ^ nat (- expo f)))"

text \<open>The expression \<open>int((a / b) * k)\<close>; \<open>None\<close> when it raises.\<close>

definition scaled_quotient :: "int \<Rightarrow> int \<Rightarrow> int \<Rightarrow> int option" where
  "scaled_quotient a b k =
     (case py_truediv a b of
        None \<Rightarrow> None
      | Some q \<Rightarrow> (case float_mul q k of None \<Rightarrow> None | Some r \<Rightarrow> Some (py_trunc r)))"

section \<open>File-attribute adapter (combined\_service.py)\<close>

text \<open>
  The file system maps a path to the text of the file; \<open>None\<close> when \<open>open\<close> or
  \<open>read\<close> raises.  \<open>battery_files\<close> maps an attribute name to its path, or to
  \<open>None\<close> when the file did not exist at start-up; the two backlight paths are
  \<open>None\<close> when no backlight directory was found.
\<close>

type_synonym fs = "string \<Rightarrow> string option"

record sysfs_paths =
  battery_files :: "string \<Rightarrow> string option"
  backlight_brightness_file :: "string option"
  backlight_max_brightness_file :: "string option"

datatype py_error = ValueError | OverflowError

text \<open>Truth value of \<open>files.get(name)\<close>: a path that is there and not empty.\<close>

definition truthy :: "string option \<Rightarrow> bool" where
  "truthy p = (case p of None \<Rightarrow> False | Some s \<Rightarrow> s \<noteq> [])"

text \<open>\<open>f.read().strip()\<close> and \<open>int(f.read().strip())\<close>; \<open>None\<close> when they raise.\<close>

definition read_text :: "fs \<Rightarrow> string option \<Rightarrow> string option" where
  "read_text files p =
     (case p of
        None \<Rightarrow> None
      | Some path \<Rightarrow> (case files path of None \<Rightarrow> None | Some content \<Rightarrow> Some (strip content)))"

definition read_int :: "fs \<Rightarrow> string option \<Rightarrow> int option" where
  "read_int files p =
     (case read_text files p of None \<Rightarrow> None | Some t \<Rightarrow> py_int_of_str t)"

definition get_backlight_percentage_internal :: "sysfs_paths \<Rightarrow> fs \<Rightarrow> py_error + int option" where
  "get_backlight_percentage_internal paths files =
     (if \<not> (truthy (backlight_brightness_file paths) \<and> truthy (backlight_max_brightness_file paths))
      then Inr None
      else
        case read_int files (backlight_brightness_file paths) of
          None \<Rightarrow> Inr None
        | Some current \<Rightarrow>
            (case read_int files (backlight_max_brightness_file paths) of
               None \<Rightarrow> Inr None
             | Some max_val \<Rightarrow>
                 if max_val > 0
                 then (case scaled_quotient current max_val 100 of
                         None \<Rightarrow> Inl OverflowError
                       | Some p \<Rightarrow> Inr (Some p))
                 else Inr (Some 0)))"

text \<open>
  The three methods of \<open>_calculate_time_from_files\<close>.  Each gives \<open>Some r\<close> when it
  executes \<open>return r\<close> and \<open>None\<close> when control passes on to the next method, which
  is also what a caught exception does.
\<close>

definition time_file_key :: "bool \<Rightarrow> string \<Rightarrow> string option" where
  "time_file_key is_charging status_str =
     (if is_charging then Some ''time_to_full''
      else if py_in ''discharging'' status_str then Some ''time_to_empty''
      else None)"

definition direct_time_method ::
  "(string \<Rightarrow> string option) \<Rightarrow> fs \<Rightarrow> bool \<Rightarrow> string \<Rightarrow> int option option" where
  "direct_time_method bfiles files is_charging status_str =
     (case time_file_key is_charging status_str of
        None \<Rightarrow> None
      | Some key \<Rightarrow>
          if truthy (bfiles key)
          then (case read_int files (bfiles key) of
                  None \<Rightarrow> None
                | Some time_seconds \<Rightarrow> if time_seconds > 0 then Some (Some time_seconds) else None)
          else None)"

definition positive_or_none :: "int \<Rightarrow> int option" where
  "positive_or_none time_seconds = (if time_seconds > 0 then Some time_seconds else None)"

definition rate_level_method ::
  "string \<Rightarrow> string \<Rightarrow> string \<Rightarrow> (string \<Rightarrow> string option) \<Rightarrow> fs \<Rightarrow> bool \<Rightarrow> int option option" where
  "rate_level_method rate_key level_key full_key bfiles files is_charging =
     (if truthy (bfiles rate_key) \<and> truthy (bfiles level_key)
      then
        case read_int files (bfiles rate_key) of
          None \<Rightarrow> None
        | Some rate_now \<Rightarrow>
            (case read_int files (bfiles level_key) of
               None \<Rightarrow> None
             | Some level_now \<Rightarrow>
                 if rate_now > 0
                 then
                   if is_charging \<and> truthy (bfiles full_key)
                   then (case read_int files (bfiles full_key) of
                           None \<Rightarrow> None
                         | Some level_full \<Rightarrow>
                             (case scaled_quotient (level_full - level_now) rate_now 3600 of
                                None \<Rightarrow> None
                              | Some time_seconds \<Rightarrow> Some (positive_or_none time_seconds)))
                   else if \<not> is_charging
                   then (case scaled_quotient level_now rate_now 3600 of
                           None \<Rightarrow> None
                         | Some time_seconds \<Rightarrow> Some (positive_or_none time_seconds))
                   else None
                 else None)
      else None)"

definition calculate_time_from_files ::
  "(string \<Rightarrow> string option) \<Rightarrow> fs \<Rightarrow> bool \<Rightarrow> string \<Rightarrow> int option" where
  "calculate_time_from_files bfiles files is_charging status_str =
     (case direct_time_method bfiles files is_charging status_str of
        Some r \<Rightarrow> r
      | None \<Rightarrow>
          (case rate_level_method ''power_now'' ''energy_now'' ''energy_full'' bfiles files is_charging of
             Some r \<Rightarrow> r
           | None \<Rightarrow>
               (case rate_level_method ''current_now'' ''charge_now'' ''charge_full'' bfiles files is_charging of
                  Some r \<Rightarrow> r
                | None \<Rightarrow> None)))"

definition get_battery_info_internal :: "sysfs_paths \<Rightarrow> fs \<Rightarrow> int option \<times> bool \<times> int option" where
  "get_battery_info_internal paths files =
     (if \<not> truthy (battery_files paths ''capacity'') \<or> \<not> truthy (battery_files paths ''status'')
      then (None, False, None)
      else
        case read_int files (battery_files paths ''capacity'') of
          None \<Rightarrow> (None, False, None)
        | Some capacity \<Rightarrow>
            (case read_text files (battery_files paths ''status'') of
               None \<Rightarrow> (None, False, None)
             | Some status_str \<Rightarrow>
                 let is_charging = parse_battery_status status_str;
                     time_remaining =
                       (if is_charging \<or> py_in ''discharging'' (lower status_str)
                        then calculate_time_from_files (battery_files paths) files is_charging
                               (lower status_str)
                        else None)
                 in (Some capacity, is_charging, time_remaining)))"

section \<open>Client registry and broadcast\<close>

text \<open>
  A client socket is a number.  The network records, for every socket, the messages
  written to it so far, the sockets on which a write raises (the peer is gone), and
  the sockets the daemon has closed; a write to a closed socket raises as well.
\<close>

type_synonym sock = nat

record net =
  delivered :: "sock \<Rightarrow> string list"
  broken :: "sock set"
  closed_socks :: "sock set"

definition sendall :: "net \<Rightarrow> sock \<Rightarrow> string \<Rightarrow> net option" where
  "sendall n c message =
     (if c \<in> broken n \<or> c \<in> closed_socks n then None
      else Some (n\<lparr>delivered := (delivered n)(c := delivered n c @ [message])\<rparr>))"

definition close_sock :: "net \<Rightarrow> sock \<Rightarrow> net" where
  "close_sock n c = n\<lparr>closed_socks := insert c (closed_socks n)\<rparr>"

definition newline :: string where
  "newline = [CHR 0x0A]"

text \<open>
  A socket is unreachable when a write to it raises.  \<open>after_broadcast\<close> describes
  the network once a message has been offered to every socket of a registry: each
  reachable socket has received it as often as it is listed, and the unreachable
  ones that were listed are closed.
\<close>

definition unreachable :: "net \<Rightarrow> sock \<Rightarrow> bool" where
  "unreachable n c = (c \<in> broken n \<or> c \<in> closed_socks n)"

definition after_broadcast :: "string \<Rightarrow> sock list \<Rightarrow> net \<Rightarrow> net" where
  "after_broadcast message cs n =
     n\<lparr>delivered := (\<lambda>c. if unreachable n c then delivered n c
                          else delivered n c @ replicate (count_list cs c) message),
       closed_socks := closed_socks n \<union> {c \<in> set cs. unreachable n c}\<rparr>"

text \<open>
  The sending loop of \<open>notify_clients\<close>: the network after the loop and
  \<open>disconnected_clients\<close>.
\<close>

fun send_loop :: "string \<Rightarrow> sock list \<Rightarrow> net \<Rightarrow> sock list \<Rightarrow> net \<times> sock list" where
  "send_loop message [] n disconnected_clients = (n, disconnected_clients)"
| "send_loop message (client # rest) n disconnected_clients =
     (case sendall n client message of
        Some n' \<Rightarrow> send_loop message rest n' disconnected_clients
      | None \<Rightarrow> send_loop message rest n (disconnected_clients @ [client]))"

text \<open>
  The clean-up loop of the combined daemon:
  \<open>if client in self.clients: self.clients.remove(client); client.close()\<close>.
\<close>

fun drop_disconnected :: "sock list \<Rightarrow> sock list \<times> net \<Rightarrow> sock list \<times> net" where
  "drop_disconnected [] (clients, n) = (clients, n)"
| "drop_disconnected (client # rest) (clients, n) =
     (if client \<in> set clients
      then drop_disconnected rest (remove1 client clients, close_sock n client)
      else drop_disconnected rest (clients, n))"

text \<open>
  \<open>notify_clients\<close> of the combined daemon: under the lock it copies the
  registry, it sends to the copy, and under the lock again it removes the sockets
  that failed, each only if it is still registered.  \<open>dumps\<close> is \<open>json.dumps\<close> on
  the daemon's snapshot type.
\<close>

definition notify_clients ::
  "('d \<Rightarrow> string) \<Rightarrow> 'd \<Rightarrow> sock list \<times> net \<Rightarrow> sock list \<times> net" where
  "notify_clients dumps current_data st =
     (let message = dumps current_data @ newline;
          (n', disconnected_clients) = send_loop message (fst st) (snd st) []
      in drop_disconnected disconnected_clients (fst st, n'))"

section \<open>Broadcast of the time and window daemons, step by step\<close>

text \<open>
  \<open>notify_clients\<close> of the time and window daemons takes no lock and no copy: its
  first loop iterates over \<open>self.clients\<close> itself, the list that the handler threads
  change, and its second loop calls \<open>self.clients.remove(client)\<close> without looking
  whether the client is still there.  A Python list iterator holds an index and
  stops as soon as the index is not below the current length of the list.  The
  broadcast is therefore a sequence of steps between which a handler thread can run:
  \<^item> \<open>Start\<close>: the message is built, the iterator is at index 0;
  \<^item> \<open>SendNext\<close>: one pass of the first loop, or its end when the index has
    reached the length of the list;
  \<^item> \<open>RemoveNext\<close>: one pass of the second loop, which raises \<open>ValueError\<close> when
    the client is no longer in the list, or the return when the loop is done;
  \<^item> \<open>Handler c\<close>: the handler thread of connection \<open>c\<close> writes its initial
    message; when the write raises, its \<open>finally\<close> block removes \<open>c\<close> from the list
    if it is there and closes the socket.
\<close>

datatype phase = Idle | Sending nat | Removing | Raised py_error

datatype broadcast_event = Start | SendNext | RemoveNext | Handler sock

record broadcaster =
  live_clients :: "sock list"
  link :: net
  pc :: phase
  disconnected :: "sock list"

definition broadcast_step :: "string \<Rightarrow> broadcast_event \<Rightarrow> broadcaster \<Rightarrow> broadcaster" where
  "broadcast_step message e b =
     (case e of
        Start \<Rightarrow>
          (case pc b of
             Idle \<Rightarrow> b\<lparr>pc := Sending 0, disconnected := []\<rparr>
           | _ \<Rightarrow> b)
      | SendNext \<Rightarrow>
          (case pc b of
             Sending i \<Rightarrow>
               if i < length (live_clients b)
               then (case sendall (link b) (live_clients b ! i) message of
                       Some n' \<Rightarrow> b\<lparr>link := n', pc := Sending (i + 1)\<rparr>
                     | None \<Rightarrow>
                         b\<lparr>disconnected := disconnected b @ [live_clients b ! i],
                           pc := Sending (i + 1)\<rparr>)
               else b\<lparr>pc := Removing\<rparr>
           | _ \<Rightarrow> b)
      | RemoveNext \<Rightarrow>
          (case pc b of
             Removing \<Rightarrow>
               (case disconnected b of
                  [] \<Rightarrow> b\<lparr>pc := Idle\<rparr>
                | client # rest \<Rightarrow>
                    if client \<in> set (live_clients b)
                    then b\<lparr>live_clients := remove1 client (live_clients b),
                           link := close_sock (link b) client,
                           disconnected := rest\<rparr>
                    else b\<lparr>pc := Raised ValueError\<rparr>)
           | _ \<Rightarrow> b)
      | Handler c \<Rightarrow>
          (case sendall (link b) c message of
             Some n' \<Rightarrow> b\<lparr>link := n'\<rparr>
           | None \<Rightarrow>
               b\<lparr>live_clients :=
                    (if c \<in> set (live_clients b) then remove1 c (live_clients b)
                     else live_clients b),
                 link := close_sock (link b) c\<rparr>))"

fun broadcast_run :: "string \<Rightarrow> broadcast_event list \<Rightarrow> broadcaster \<Rightarrow> broadcaster" where
  "broadcast_run message [] b = b"
| "broadcast_run message (e # es) b = broadcast_run message es (broadcast_step message e b)"

text \<open>
  The steps of one broadcast over \<open>k\<close> clients of which \<open>f\<close> fail, with nothing in
  between.
\<close>

definition uninterrupted :: "nat \<Rightarrow> nat \<Rightarrow> broadcast_event list" where
  "uninterrupted k f = Start # replicate (k + 1) SendNext @ replicate (f + 1) RemoveNext"

text \<open>
  The combined daemon's broadcast in the same steps, for comparison: \<open>Start\<close> copies
  the registry under the lock, \<open>SendNext\<close> iterates over the copy, and
  \<open>RemoveNext\<close> removes and closes a failed client only if it is still registered.
  The state is the daemon's and the copy.
\<close>

definition locked_broadcast_step ::
  "string \<Rightarrow> broadcast_event \<Rightarrow> broadcaster \<times> sock list \<Rightarrow> broadcaster \<times> sock list" where
  "locked_broadcast_step message e st =
     (let b = fst st; clients_to_notify = snd st
      in case e of
        Start \<Rightarrow>
          (case pc b of
             Idle \<Rightarrow> (b\<lparr>pc := Sending 0, disconnected := []\<rparr>, live_clients b)
           | _ \<Rightarrow> st)
      | SendNext \<Rightarrow>
          (case pc b of
             Sending i \<Rightarrow>
               if i < length clients_to_notify
               then (case sendall (link b) (clients_to_notify ! i) message of
                       Some n' \<Rightarrow> (b\<lparr>link := n', pc := Sending (i + 1)\<rparr>, clients_to_notify)
                     | None \<Rightarrow>
                         (b\<lparr>disconnected := disconnected b @ [clients_to_notify ! i],
                            pc := Sending (i + 1)\<rparr>, clients_to_notify))
               else (b\<lparr>pc := Removing\<rparr>, clients_to_notify)
           | _ \<Rightarrow> st)
      | RemoveNext \<Rightarrow>
          (case pc b of
             Removing \<Rightarrow>
               (case disconnected b of
                  [] \<Rightarrow> (b\<lparr>pc := Idle\<rparr>, clients_to_notify)
                | client # rest \<Rightarrow>
                    if client \<in> set (live_clients b)
                    then (b\<lparr>live_clients := remove1 client (live_clients b),
                            link := close_sock (link b) client,
                            disconnected := rest\<rparr>, clients_to_notify)
                    else (b\<lparr>disconnected := rest\<rparr>, clients_to_notify))
           | _ \<Rightarrow> st)
      | Handler c \<Rightarrow>
          (case sendall (link b) c message of
             Some n' \<Rightarrow> (b\<lparr>link := n'\<rparr>, clients_to_notify)
           | None \<Rightarrow>
               (b\<lparr>live_clients :=
                     (if c \<in> set (live_clients b) then remove1 c (live_clients b)
                      else live_clients b),
                  link := close_sock (link b) c\<rparr>, clients_to_notify)))"

fun locked_broadcast_run ::
  "string \<Rightarrow> broadcast_event list \<Rightarrow> broadcaster \<times> sock list \<Rightarrow> broadcaster \<times> sock list" where
  "locked_broadcast_run message [] st = st"
| "locked_broadcast_run message (e # es) st =
     locked_broadcast_run message es (locked_broadcast_step message e st)"

text \<open>
  Two clients are registered, 1 before 2; the peer of 1 has gone away, and the
  handler thread of 1 has not yet written its initial message.
\<close>

definition two_clients_first_gone :: broadcaster where
  "two_clients_first_gone =
     \<lparr>live_clients = [1, 2],
      link = \<lparr>delivered = (\<lambda>c. []), broken = {1}, closed_socks = {}\<rparr>,
      pc = Idle, disconnected = []\<rparr>"

section \<open>Accepting clients, as interleaved steps\<close>


record 'd server =
  current_data :: 'd
  clients :: "sock list"
  network :: net
  started :: "sock list"
  initial_message :: "sock \<Rightarrow> string option"






section \<open>State store of the combined daemon\<close>

record combined_data =
  battery_percentage :: "int option"
  is_charging :: bool
  battery_time_remaining :: "int option"
  backlight_percentage :: "int option"
  volume_percentage :: "int option"
  speaker_muted :: "bool option"
  mic_muted :: "bool option"

text \<open>What \<open>CombinedService.__init__\<close> stores before any adapter has run.\<close>

definition initial_data :: combined_data where
  "initial_data =
     \<lparr>battery_percentage = None, is_charging = False, battery_time_remaining = None,
      backlight_percentage = None, volume_percentage = None,
      speaker_muted = None, mic_muted = None\<rparr>"

text \<open>
  The compare-and-store block at the end of \<open>update_file_data_and_notify\<close>: the
  stored data afterwards and \<open>data_changed\<close>.
\<close>

definition store_file_data ::
  "combined_data \<Rightarrow> int option \<Rightarrow> bool \<Rightarrow> int option \<Rightarrow> int option \<Rightarrow> combined_data \<times> bool" where
  "store_file_data cd bat_percent is_chg time_rem backlight_percent =
     (let (cd1, ch1) = (if battery_percentage cd \<noteq> bat_percent
                        then (cd\<lparr>battery_percentage := bat_percent\<rparr>, True) else (cd, False));
          (cd2, ch2) = (if is_charging cd1 \<noteq> is_chg
                        then (cd1\<lparr>is_charging := is_chg\<rparr>, True) else (cd1, ch1));
          (cd3, ch3) = (if battery_time_remaining cd2 \<noteq> time_rem
                        then (cd2\<lparr>battery_time_remaining := time_rem\<rparr>, True) else (cd2, ch2));
          (cd4, ch4) = (if backlight_percentage cd3 \<noteq> backlight_percent
                        then (cd3\<lparr>backlight_percentage := backlight_percent\<rparr>, True) else (cd3, ch3))
      in (cd4, ch4))"

text \<open>
  The locked block of \<open>_on_audio_state_changed\<close>.  \<open>speaker\<close> is the default sink,
  if there is one, as the pair of \<open>int(speaker.volume)\<close> and \<open>speaker.muted\<close>;
  \<open>mic\<close> is the default source's \<open>muted\<close> flag, if there is one.
\<close>

definition store_audio_data ::
  "combined_data \<Rightarrow> (int \<times> bool) option \<Rightarrow> bool option \<Rightarrow> combined_data \<times> bool" where
  "store_audio_data cd speaker mic =
     (let new_volume = (case speaker of Some (v, m) \<Rightarrow> Some v | None \<Rightarrow> volume_percentage cd);
          new_speaker_muted = (case speaker of Some (v, m) \<Rightarrow> Some m | None \<Rightarrow> speaker_muted cd);
          (cd1, ch1) = (if volume_percentage cd \<noteq> new_volume
                        then (cd\<lparr>volume_percentage := new_volume\<rparr>, True) else (cd, False));
          (cd2, ch2) = (if speaker_muted cd1 \<noteq> new_speaker_muted
                        then (cd1\<lparr>speaker_muted := new_speaker_muted\<rparr>, True) else (cd1, ch1));
          new_mic_muted = (case mic of Some m \<Rightarrow> Some m | None \<Rightarrow> mic_muted cd2);
          (cd3, ch3) = (if mic_muted cd2 \<noteq> new_mic_muted
                        then (cd2\<lparr>mic_muted := new_mic_muted\<rparr>, True) else (cd2, ch2))
      in (cd3, ch3))"

text \<open>\<open>json.dumps\<close> of the combined snapshot, keys in insertion order.\<close>

definition json_int :: "int \<Rightarrow> string" where
  "json_int i = (if i < 0 then ''-'' @ decimal (nat (- i)) else decimal (nat i))"

definition json_opt_int :: "int option \<Rightarrow> string" where
  "json_opt_int v = (case v of None \<Rightarrow> ''null'' | Some i \<Rightarrow> json_int i)"

definition json_bool :: "bool \<Rightarrow> string" where
  "json_bool b = (if b then ''true'' else ''false'')"

definition json_opt_bool :: "bool option \<Rightarrow> string" where
  "json_opt_bool v = (case v of None \<Rightarrow> ''null'' | Some b \<Rightarrow> json_bool b)"

definition json_dumps :: "combined_data \<Rightarrow> string" where
  "json_dumps cd =
     ''{\"battery_percentage\": '' @ json_opt_int (battery_percentage cd) @
     '', \"is_charging\": '' @ json_bool (is_charging cd) @
     '', \"battery_time_remaining\": '' @ json_opt_int (battery_time_remaining cd) @
     '', \"backlight_percentage\": '' @ json_opt_int (backlight_percentage cd) @
     '', \"volume_percentage\": '' @ json_opt_int (volume_percentage cd) @
     '', \"speaker_muted\": '' @ json_opt_bool (speaker_muted cd) @
     '', \"mic_muted\": '' @ json_opt_bool (mic_muted cd) @ ''}''"

text \<open>
  The combined daemon: its paths, its store, the time of the last battery refresh,
  its registry and the network.  Times are \<open>time.time()\<close> values, taken as exact
  numbers.
\<close>

record combined_service =
  paths :: sysfs_paths
  data :: combined_data
  last_battery_update :: rat
  registry :: "sock list"
  wire :: net

definition update_file_data_and_notify ::
  "bool \<Rightarrow> rat \<Rightarrow> fs \<Rightarrow> combined_service \<Rightarrow> py_error + combined_service" where
  "update_file_data_and_notify force_battery_update current_time files s =
     (case get_backlight_percentage_internal (paths s) files of
        Inl err \<Rightarrow> Inl err
      | Inr backlight_percent \<Rightarrow>
          let should_update_battery =
                (force_battery_update \<or> current_time - last_battery_update s \<ge> 30);
              (bat_percent, is_chg, time_rem) =
                (if should_update_battery then get_battery_info_internal (paths s) files
                 else (battery_percentage (data s), is_charging (data s),
                       battery_time_remaining (data s)));
              last' = (if should_update_battery then current_time else last_battery_update s);
              (data', data_changed) =
                store_file_data (data s) bat_percent is_chg time_rem backlight_percent;
              (registry', wire') =
                (if data_changed then notify_clients json_dumps data' (registry s, wire s)
                 else (registry s, wire s))
          in Inr (s\<lparr>data := data', last_battery_update := last',
                    registry := registry', wire := wire'\<rparr>))"

text \<open>
  \<open>_on_audio_state_changed\<close>.  \<open>audio_service\<close> is \<open>None\<close> when the mixer
  service is not there (the callback returns at once), and otherwise the default sink
  and source as \<open>store_audio_data\<close> takes them.
\<close>

definition on_audio_state_changed ::
  "((int \<times> bool) option \<times> bool option) option \<Rightarrow> combined_service \<Rightarrow> combined_service" where
  "on_audio_state_changed audio_service s =
     (case audio_service of
        None \<Rightarrow> s
      | Some (speaker, mic) \<Rightarrow>
          let (data', data_changed) = store_audio_data (data s) speaker mic;
              (registry', wire') =
                (if data_changed then notify_clients json_dumps data' (registry s, wire s)
                 else (registry s, wire s))
          in s\<lparr>data := data', registry := registry', wire := wire'\<rparr>)"

section \<open>The store's contract in the specification's words\<close>

text \<open>
  A partial update names, for each field, either nothing (the field is unspecified)
  or the new value.  Merging keeps an unspecified field and replaces a specified
  one; the update changes the store when a specified field's new value differs from
  the stored one.
\<close>

record partial_update =
  set_battery_percentage :: "int option option"
  set_is_charging :: "bool option"
  set_battery_time_remaining :: "int option option"
  set_backlight_percentage :: "int option option"
  set_volume_percentage :: "int option option"
  set_speaker_muted :: "bool option option"
  set_mic_muted :: "bool option option"

definition merged :: "'a option \<Rightarrow> 'a \<Rightarrow> 'a" where
  "merged new old = (case new of None \<Rightarrow> old | Some v \<Rightarrow> v)"

definition spec_merge :: "combined_data \<Rightarrow> partial_update \<Rightarrow> combined_data" where
  "spec_merge cd u =
     \<lparr>battery_percentage = merged (set_battery_percentage u) (battery_percentage cd),
      is_charging = merged (set_is_charging u) (is_charging cd),
      battery_time_remaining = merged (set_battery_time_remaining u) (battery_time_remaining cd),
      backlight_percentage = merged (set_backlight_percentage u) (backlight_percentage cd),
      volume_percentage = merged (set_volume_percentage u) (volume_percentage cd),
      speaker_muted = merged (set_speaker_muted u) (speaker_muted cd),
      mic_muted = merged (set_mic_muted u) (mic_muted cd)\<rparr>"

definition spec_changed :: "combined_data \<Rightarrow> partial_update \<Rightarrow> bool" where
  "spec_changed cd u =
     (merged (set_battery_percentage u) (battery_percentage cd) \<noteq> battery_percentage cd
      \<or> merged (set_is_charging u) (is_charging cd) \<noteq> is_charging cd
      \<or> merged (set_battery_time_remaining u) (battery_time_remaining cd) \<noteq> battery_time_remaining cd
      \<or> merged (set_backlight_percentage u) (backlight_percentage cd) \<noteq> backlight_percentage cd
      \<or> merged (set_volume_percentage u) (volume_percentage cd) \<noteq> volume_percentage cd
      \<or> merged (set_speaker_muted u) (speaker_muted cd) \<noteq> speaker_muted cd
      \<or> merged (set_mic_muted u) (mic_muted cd) \<noteq> mic_muted cd)"

text \<open>
  The two adapters' inputs to the store, and the partial update each one stands for:
  the file adapter specifies the three battery fields and the backlight, the audio
  adapter the volume and speaker mute when there is a default sink and the
  microphone mute when there is a default source.
\<close>

datatype adapter_input =
    FileData "int option" bool "int option" "int option"
  | AudioData "(int \<times> bool) option" "bool option"

definition as_update :: "adapter_input \<Rightarrow> partial_update" where
  "as_update x =
     (case x of
        FileData bat_percent is_chg time_rem backlight_percent \<Rightarrow>
          \<lparr>set_battery_percentage = Some bat_percent, set_is_charging = Some is_chg,
           set_battery_time_remaining = Some time_rem,
           set_backlight_percentage = Some backlight_percent,
           set_volume_percentage = None, set_speaker_muted = None, set_mic_muted = None\<rparr>
      | AudioData speaker mic \<Rightarrow>
          \<lparr>set_battery_percentage = None, set_is_charging = None,
           set_battery_time_remaining = None, set_backlight_percentage = None,
           set_volume_percentage = map_option (\<lambda>(v, m). Some v) speaker,
           set_speaker_muted = map_option (\<lambda>(v, m). Some m) speaker,
           set_mic_muted = map_option Some mic\<rparr>)"

definition store_input :: "combined_data \<Rightarrow> adapter_input \<Rightarrow> combined_data \<times> bool" where
  "store_input cd x =
     (case x of
        FileData bat_percent is_chg time_rem backlight_percent \<Rightarrow>
          store_file_data cd bat_percent is_chg time_rem backlight_percent
      | AudioData speaker mic \<Rightarrow> store_audio_data cd speaker mic)"

text \<open>
  The input that \<open>update_file_data_and_notify\<close> hands to the store, given the
  backlight value it has just computed: the battery values read now when the refresh
  is forced or due, the stored battery values otherwise.
\<close>

definition sampled_file_data ::
  "bool \<Rightarrow> rat \<Rightarrow> fs \<Rightarrow> combined_service \<Rightarrow> int option \<Rightarrow> adapter_input" where
  "sampled_file_data force_battery_update current_time files s backlight_percent =
     (if force_battery_update \<or> current_time - last_battery_update s \<ge> 30
      then (case get_battery_info_internal (paths s) files of
              (bat_percent, is_chg, time_rem) \<Rightarrow>
                FileData bat_percent is_chg time_rem backlight_percent)
      else FileData (battery_percentage (data s)) (is_charging (data s))
             (battery_time_remaining (data s)) backlight_percent)"

text \<open>
  A sequence of inputs applied in order: the store at the end, and for each input
  the store before it, the input, and whether it was reported as a change.
\<close>

fun store_all :: "combined_data \<Rightarrow> adapter_input list \<Rightarrow> combined_data" where
  "store_all cd [] = cd"
| "store_all cd (x # xs) = store_all (fst (store_input cd x)) xs"

fun store_trace ::
  "combined_data \<Rightarrow> adapter_input list \<Rightarrow> (combined_data \<times> adapter_input \<times> bool) list" where
  "store_trace cd [] = []"
| "store_trace cd (x # xs) =
     (cd, x, snd (store_input cd x)) # store_trace (fst (store_input cd x)) xs"

section \<open>Daemon start-up\<close>






section \<open>A laptop to run the daemon on\<close>

text \<open>
  Concrete inputs for the adapters: the battery attributes named in \<open>present\<close>
  exist under \<open>BAT0\<close>, a backlight directory exists, and the files hold the given
  text.
\<close>

definition battery_dir :: string where
  "battery_dir = ''/sys/class/power_supply/BAT0/''"

definition brightness_path :: string where
  "brightness_path = ''/sys/class/backlight/intel_backlight/actual_brightness''"

definition max_brightness_path :: string where
  "max_brightness_path = ''/sys/class/backlight/intel_backlight/max_brightness''"

definition laptop_paths :: "string list \<Rightarrow> sysfs_paths" where
  "laptop_paths present =
     \<lparr>battery_files = (\<lambda>name. if name \<in> set present then Some (battery_dir @ name) else None),
      backlight_brightness_file = Some brightness_path,
      backlight_max_brightness_file = Some max_brightness_path\<rparr>"

definition laptop_files :: "(string \<times> string) list \<Rightarrow> string \<Rightarrow> string \<Rightarrow> fs" where
  "laptop_files battery brightness max_brightness =
     (map_of (map (\<lambda>(name, text). (battery_dir @ name, text)) battery))
       (brightness_path \<mapsto> brightness, max_brightness_path \<mapsto> max_brightness)"

definition laptop_service :: "string list \<Rightarrow> combined_data \<Rightarrow> rat \<Rightarrow> combined_service" where
  "laptop_service present cd refreshed =
     \<lparr>paths = laptop_paths present, data = cd, last_battery_update = refreshed,
      registry = [], wire = \<lparr>delivered = (\<lambda>c. []), broken = {}, closed_socks = {}\<rparr>\<rparr>"

section \<open>Facts about substrings, stripping and lowering\<close>

lemma startswith_iff: "startswith s n \<longleftrightarrow> (\<exists>ys. s = n @ ys)"
  by (induction s n rule: startswith.induct) auto

lemma py_in_iff: "py_in n s \<longleftrightarrow> (\<exists>xs ys. s = xs @ n @ ys)"
proof (induction s)
  case Nil
  then show ?case by auto
next
  case (Cons c cs)
  show ?case
  proof
    assume "py_in n (c # cs)"
    then consider "startswith (c # cs) n" | "py_in n cs" by auto
    then show "\<exists>xs ys. c # cs = xs @ n @ ys"
    proof cases
      case 1
      then obtain ys where "c # cs = n @ ys" by (auto simp: startswith_iff)
      then have "c # cs = [] @ n @ ys" by simp
      then show ?thesis by blast
    next
      case 2
      then obtain xs ys where "cs = xs @ n @ ys" using Cons.IH by blast
      then have "c # cs = (c # xs) @ n @ ys" by simp
      then show ?thesis by blast
    qed
  next
    assume "\<exists>xs ys. c # cs = xs @ n @ ys"
    then obtain xs ys where eq: "c # cs = xs @ n @ ys" by blast
    show "py_in n (c # cs)"
    proof (cases xs)
      case Nil
      with eq have "startswith (c # cs) n" by (auto simp: startswith_iff)
      then show ?thesis by simp
    next
      case (Cons x xs')
      with eq have "cs = xs' @ n @ ys" by simp
      then have "py_in n cs" using Cons.IH by blast
      then show ?thesis by simp
    qed
  qed
qed

lemma py_in_rev: "py_in (rev n) (rev s) \<longleftrightarrow> py_in n s"
proof -
  have "(\<exists>xs ys. rev s = xs @ rev n @ ys) \<longleftrightarrow> (\<exists>xs ys. s = xs @ n @ ys)"
  proof
    assume "\<exists>xs ys. rev s = xs @ rev n @ ys"
    then obtain xs ys where "rev s = xs @ rev n @ ys" by blast
    then have "rev (rev s) = rev (xs @ rev n @ ys)" by simp
    then have "s = rev ys @ n @ rev xs" by simp
    then show "\<exists>xs ys. s = xs @ n @ ys" by blast
  next
    assume "\<exists>xs ys. s = xs @ n @ ys"
    then obtain xs ys where "s = xs @ n @ ys" by blast
    then have "rev s = rev ys @ rev n @ rev xs" by simp
    then show "\<exists>xs ys. rev s = xs @ rev n @ ys" by blast
  qed
  then show ?thesis by (simp add: py_in_iff)
qed

lemma py_in_dropWhile:
  assumes "n \<noteq> []" and "\<not> P (hd n)"
  shows "py_in n (dropWhile P s) \<longleftrightarrow> py_in n s"
proof (induction s)
  case Nil
  then show ?case by simp
next
  case (Cons c cs)
  show ?case
  proof (cases "P c")
    case True
    from assms obtain a as where n: "n = a # as" by (cases n) auto
    with assms True have "\<not> startswith (c # cs) n" by auto
    with True Cons.IH show ?thesis by simp
  next
    case False
    then show ?thesis by simp
  qed
qed

lemma py_in_strip:
  assumes "n \<noteq> []" and "\<not> is_py_space (hd n)" and "\<not> is_py_space (last n)"
  shows "py_in n (strip s) \<longleftrightarrow> py_in n s"
proof -
  have r: "rev n \<noteq> []" "\<not> is_py_space (hd (rev n))"
    using assms by (simp_all add: hd_rev)
  have "py_in n (strip s) \<longleftrightarrow> py_in (rev n) (dropWhile is_py_space (rev (dropWhile is_py_space s)))"
    unfolding strip_def using py_in_rev [of n "rev (dropWhile is_py_space (rev (dropWhile is_py_space s)))"]
    by simp
  also have "\<dots> \<longleftrightarrow> py_in (rev n) (rev (dropWhile is_py_space s))"
    using r py_in_dropWhile [of "rev n" is_py_space "rev (dropWhile is_py_space s)"] by blast
  also have "\<dots> \<longleftrightarrow> py_in n (dropWhile is_py_space s)"
    by (rule py_in_rev)
  also have "\<dots> \<longleftrightarrow> py_in n s"
    using assms py_in_dropWhile [of n is_py_space s] by blast
  finally show ?thesis .
qed

lemma is_py_space_lower: "is_py_space (lower_char c) = is_py_space c"
  by (auto simp: is_py_space_def lower_char_def split: option.splits if_splits)

lemma lower_strip: "lower (strip s) = strip (lower s)"
  by (simp add: lower_def strip_def rev_map dropWhile_map comp_def is_py_space_lower)

lemma status_clean_in:
  assumes "n \<noteq> []" and "\<not> is_py_space (hd n)" and "\<not> is_py_space (last n)"
  shows "py_in n (lower (strip s)) \<longleftrightarrow> py_in n (lower s)"
  using py_in_strip [OF assms] by (simp add: lower_strip)

lemma discharging_in_charging: "py_in ''discharging'' s \<Longrightarrow> py_in ''charging'' s"
proof -
  assume "py_in ''discharging'' s"
  then obtain xs ys where "s = xs @ ''discharging'' @ ys" by (auto simp: py_in_iff)
  then have "s = (xs @ ''dis'') @ ''charging'' @ ys" by simp
  then show ?thesis unfolding py_in_iff by blast
qed

lemma parse_battery_status_py_in:
  "parse_battery_status s =
     (py_in ''charging'' (lower s) \<and>
      \<not> (py_in ''discharging'' (lower s) \<or> py_in ''not charging'' (lower s)))"
proof -
  have c: "py_in ''charging'' (lower (strip s)) = py_in ''charging'' (lower s)"
    by (rule status_clean_in) (simp_all add: is_py_space_def)
  have d: "py_in ''discharging'' (lower (strip s)) = py_in ''discharging'' (lower s)"
    by (rule status_clean_in) (simp_all add: is_py_space_def)
  have n: "py_in ''not charging'' (lower (strip s)) = py_in ''not charging'' (lower s)"
    by (rule status_clean_in) (simp_all add: is_py_space_def)
  show ?thesis
    by (simp add: parse_battery_status_def Let_def charging_states_def discharging_states_def c d n)
qed

text \<open>
  Claim C3.  The charging classification is true exactly when the lowercased status
  contains the charging phrase and contains neither discharging phrase; the leading
  and trailing blanks that \<open>strip\<close> removes play no part.  ``Not charging'' and
  ``Discharging'' classify as not charging, ``Charging'' as charging, and a status
  containing both ``charging'' and ``discharging'' as not charging.
\<close>

theorem parse_battery_status_classification:
  "(parse_battery_status s =
     ((\<exists>xs ys. lower s = xs @ ''charging'' @ ys) \<and>
      \<not> ((\<exists>xs ys. lower s = xs @ ''discharging'' @ ys) \<or>
         (\<exists>xs ys. lower s = xs @ ''not charging'' @ ys))))
   \<and> parse_battery_status ''Not charging'' = False
   \<and> parse_battery_status ''Charging'' = True
   \<and> parse_battery_status ''Discharging'' = False
   \<and> ((\<exists>xs ys. lower s = xs @ ''charging'' @ ys) \<and>
        (\<exists>xs ys. lower s = xs @ ''discharging'' @ ys) \<longrightarrow> parse_battery_status s = False)"
proof -
  have gen: "parse_battery_status s =
     ((\<exists>xs ys. lower s = xs @ ''charging'' @ ys) \<and>
      \<not> ((\<exists>xs ys. lower s = xs @ ''discharging'' @ ys) \<or>
         (\<exists>xs ys. lower s = xs @ ''not charging'' @ ys)))" for s
    unfolding parse_battery_status_py_in py_in_iff ..
  have l1: "lower ''Not charging'' = ''not charging''"
    and l2: "lower ''Charging'' = ''charging''"
    and l3: "lower ''Discharging'' = ''discharging''"
    by (simp_all add: lower_def lower_char_def)
  have e1: "parse_battery_status ''Not charging'' = False"
    by (simp add: parse_battery_status_py_in l1)
  have e2: "parse_battery_status ''Charging'' = True"
    by (simp add: parse_battery_status_py_in l2)
  have e3: "parse_battery_status ''Discharging'' = False"
    by (simp add: parse_battery_status_py_in l3)
  from gen [of s] e1 e2 e3 show ?thesis by blast
qed

theorem parse_battery_status_classification_witness:
  "((\<exists>xs ys. lower ''Charging/Discharging'' = xs @ ''charging'' @ ys) \<and>
    (\<exists>xs ys. lower ''Charging/Discharging'' = xs @ ''discharging'' @ ys))
   \<and> parse_battery_status ''Charging/Discharging'' = False"
proof -
  have l: "lower ''Charging/Discharging'' = ''charging/discharging''"
    by (simp add: lower_def lower_char_def)
  have "''charging/discharging'' = [] @ ''charging'' @ ''/discharging''" by simp
  then have a: "\<exists>xs ys. lower ''Charging/Discharging'' = xs @ ''charging'' @ ys"
    unfolding l by blast
  have "''charging/discharging'' = ''charging/'' @ ''discharging'' @ []" by simp
  then have b: "\<exists>xs ys. lower ''Charging/Discharging'' = xs @ ''discharging'' @ ys"
    unfolding l by blast
  from a b parse_battery_status_classification [of "''Charging/Discharging''"]
  show ?thesis by blast
qed

section \<open>The exposed workspace list\<close>

lemma filtered_workspaces_eq:
  "filtered_workspaces wss = map entry_of (filter (\<lambda>ws. 0 \<le> get_id ws) wss)"
  by (induction wss) auto

text \<open>
  Claim C5.  For every list the compositor returns, the exposed list holds exactly the
  entries built from the workspaces with non-negative id (as a multiset: none lost,
  none added, none duplicated), every id is non-negative, and the ids are in ascending
  order; the ids -1, 3, 1, 2 give the entries with ids 1, 2, 3.
\<close>

theorem workspaces_sorted_nonnegative:
  "sorted (map ws_id (get_hyprland_all_workspaces_list (JsonList wss)))
   \<and> mset (get_hyprland_all_workspaces_list (JsonList wss)) =
       image_mset entry_of (filter_mset (\<lambda>ws. 0 \<le> get_id ws) (mset wss))
   \<and> list_all (\<lambda>e. 0 \<le> ws_id e) (get_hyprland_all_workspaces_list (JsonList wss))
   \<and> get_hyprland_all_workspaces_list (JsonList [
        \<lparr>raw_id = Some (- 1), raw_name = Some ''special'', raw_windows = Some 1\<rparr>,
        \<lparr>raw_id = Some 3, raw_name = Some ''3'', raw_windows = Some 0\<rparr>,
        \<lparr>raw_id = Some 1, raw_name = Some ''1'', raw_windows = Some 2\<rparr>,
        \<lparr>raw_id = Some 2, raw_name = Some ''2'', raw_windows = None\<rparr>]) =
       [\<lparr>ws_id = 1, ws_name = Some ''1'', ws_windows = 2\<rparr>,
        \<lparr>ws_id = 2, ws_name = Some ''2'', ws_windows = 0\<rparr>,
        \<lparr>ws_id = 3, ws_name = Some ''3'', ws_windows = 0\<rparr>]"
proof -
  let ?r = "get_hyprland_all_workspaces_list (JsonList wss)"
  have r: "?r = sort_key ws_id (filtered_workspaces wss)"
    by (cases wss) (simp_all add: get_hyprland_all_workspaces_list_def)
  have a: "sorted (map ws_id ?r)" unfolding r by simp
  have b: "mset ?r = image_mset entry_of (filter_mset (\<lambda>ws. 0 \<le> get_id ws) (mset wss))"
    unfolding r by (simp add: filtered_workspaces_eq)
  have "set ?r = entry_of ` {ws \<in> set wss. 0 \<le> get_id ws}"
    unfolding r by (auto simp: filtered_workspaces_eq)
  then have c: "list_all (\<lambda>e. 0 \<le> ws_id e) ?r"
    by (auto simp: list_all_iff entry_of_def)
  have d: "get_hyprland_all_workspaces_list (JsonList [
        \<lparr>raw_id = Some (- 1), raw_name = Some ''special'', raw_windows = Some 1\<rparr>,
        \<lparr>raw_id = Some 3, raw_name = Some ''3'', raw_windows = Some 0\<rparr>,
        \<lparr>raw_id = Some 1, raw_name = Some ''1'', raw_windows = Some 2\<rparr>,
        \<lparr>raw_id = Some 2, raw_name = Some ''2'', raw_windows = None\<rparr>]) =
       [\<lparr>ws_id = 1, ws_name = Some ''1'', ws_windows = 2\<rparr>,
        \<lparr>ws_id = 2, ws_name = Some ''2'', ws_windows = 0\<rparr>,
        \<lparr>ws_id = 3, ws_name = Some ''3'', ws_windows = 0\<rparr>]"
    by (simp add: get_hyprland_all_workspaces_list_def get_id_def entry_of_def)
  from a b c d show ?thesis by blast
qed


theorem workspaces_sorted_nonnegative_witness:
  "sorted (map ws_id (get_hyprland_all_workspaces_list (JsonList [
      \<lparr>raw_id = Some 7, raw_name = None, raw_windows = None\<rparr>,
      \<lparr>raw_id = None, raw_name = Some ''x'', raw_windows = Some 4\<rparr>,
      \<lparr>raw_id = Some (- 99), raw_name = None, raw_windows = None\<rparr>])))"
  using workspaces_sorted_nonnegative [of "[
      \<lparr>raw_id = Some 7, raw_name = None, raw_windows = None\<rparr>,
      \<lparr>raw_id = None, raw_name = Some ''x'', raw_windows = Some 4\<rparr>,
      \<lparr>raw_id = Some (- 99), raw_name = None, raw_windows = None\<rparr>]"]
  by blast

section \<open>When the clock adapter broadcasts\<close>

lemmas clock_eval = monitor_time_step_def get_formatted_time_def strftime_HM_def strftime_a_def
  strftime_b_def two_digits_def digit_char_def get_ordinal_suffix_def decimal.simps Let_def

text \<open>
  The sampled record can differ from the stored one while no broadcast happens: two
  wake-ups one day apart at the same minute (a laptop resumed from suspend, a clock
  that was set) give records that differ in \<open>day_name\<close> and \<open>date_str\<close> and
  agree in \<open>time_str\<close>, and the pass keeps the stored record and does not notify.
\<close>

theorem clock_whole_record_counterexample:
  "get_formatted_time \<lparr>month = 3, day = 2, weekday = 1, hour = 14, minute = 5, second = 0\<rparr>
     \<noteq> get_formatted_time \<lparr>month = 3, day = 1, weekday = 0, hour = 14, minute = 5, second = 0\<rparr>
   \<and> monitor_time_step
        (get_formatted_time \<lparr>month = 3, day = 1, weekday = 0, hour = 14, minute = 5, second = 0\<rparr>)
        \<lparr>month = 3, day = 2, weekday = 1, hour = 14, minute = 5, second = 0\<rparr>
      = (get_formatted_time \<lparr>month = 3, day = 1, weekday = 0, hour = 14, minute = 5, second = 0\<rparr>, False)"
  by (simp add: clock_eval)

text \<open>
  Claim C6, as the code has it.  On every wake the clock adapter broadcasts exactly
  when the newly computed \<open>time_str\<close> (the zero-padded hour and minute) differs from
  the stored \<open>time_str\<close>; then the whole new record replaces the stored one, and
  otherwise the stored record stays as it was.
\<close>

theorem monitor_time_step_time_str:
  "snd (monitor_time_step cur now) = (time_str (get_formatted_time now) \<noteq> time_str cur)
   \<and> fst (monitor_time_step cur now) =
       (if time_str (get_formatted_time now) \<noteq> time_str cur then get_formatted_time now else cur)
   \<and> time_str (get_formatted_time now) = two_digits (hour now) @ '':'' @ two_digits (minute now)"
  by (simp add: monitor_time_step_def Let_def get_formatted_time_def strftime_HM_def)

theorem monitor_time_step_time_str_witness:
  "monitor_time_step
     (get_formatted_time \<lparr>month = 3, day = 1, weekday = 0, hour = 14, minute = 5, second = 0\<rparr>)
     \<lparr>month = 3, day = 1, weekday = 0, hour = 14, minute = 6, second = 0\<rparr>
   = (\<lparr>time_str = ''14:06'', day_name = ''Mon'', date_str = ''1st Mar'',
        full_display = ''14:06, Mon, 1st Mar''\<rparr>, True)"
proof -
  have "time_str (get_formatted_time \<lparr>month = 3, day = 1, weekday = 0, hour = 14, minute = 6, second = 0\<rparr>)
      \<noteq> time_str (get_formatted_time \<lparr>month = 3, day = 1, weekday = 0, hour = 14, minute = 5, second = 0\<rparr>)"
    by (simp add: clock_eval)
  moreover have "get_formatted_time \<lparr>month = 3, day = 1, weekday = 0, hour = 14, minute = 6, second = 0\<rparr>
     = \<lparr>time_str = ''14:06'', day_name = ''Mon'', date_str = ''1st Mar'',
        full_display = ''14:06, Mon, 1st Mar''\<rparr>"
    by (simp add: clock_eval)
  ultimately show ?thesis
    using monitor_time_step_time_str [of
      "get_formatted_time \<lparr>month = 3, day = 1, weekday = 0, hour = 14, minute = 5, second = 0\<rparr>"
      "\<lparr>month = 3, day = 1, weekday = 0, hour = 14, minute = 6, second = 0\<rparr>"]
    by (simp add: prod_eq_iff)
qed

section \<open>What a broadcast does\<close>

lemma sendall_unreachable: "unreachable n c \<Longrightarrow> sendall n c m = None"
  by (simp add: sendall_def unreachable_def)

lemma sendall_reachable:
  "\<not> unreachable n c \<Longrightarrow>
     sendall n c m = Some (n\<lparr>delivered := (delivered n)(c := delivered n c @ [m])\<rparr>)"
  by (simp add: sendall_def unreachable_def)

lemma unreachable_delivered_update [simp]:
  "unreachable (n\<lparr>delivered := f\<rparr>) = unreachable n"
  by (simp add: unreachable_def fun_eq_iff)

lemma send_loop_eq:
  "send_loop m cs n disc =
     (n\<lparr>delivered := (\<lambda>c. if unreachable n c then delivered n c
                           else delivered n c @ replicate (count_list cs c) m)\<rparr>,
      disc @ filter (unreachable n) cs)"
proof (induction cs arbitrary: n disc)
  case Nil
  have "(\<lambda>c. if unreachable n c then delivered n c else delivered n c @ replicate (count_list [] c) m)
      = delivered n"
    by (simp add: fun_eq_iff)
  then show ?case by simp
next
  case (Cons a cs)
  show ?case
  proof (cases "unreachable n a")
    case True
    then show ?thesis
      by (auto simp: sendall_unreachable Cons.IH fun_eq_iff intro!: net.equality)
  next
    case False
    have "(\<lambda>c. if unreachable n c then ((delivered n)(a := delivered n a @ [m])) c
               else ((delivered n)(a := delivered n a @ [m])) c @ replicate (count_list cs c) m)
        = (\<lambda>c. if unreachable n c then delivered n c
               else delivered n c @ replicate (count_list (a # cs) c) m)"
      using False by (auto simp: fun_eq_iff replicate_append_same)
    with False show ?thesis
      by (simp add: sendall_reachable Cons.IH cong: if_cong)
  qed
qed

lemma drop_disconnected_eq:
  assumes "\<And>y. y \<in> set ys \<Longrightarrow> \<not> P y"
  shows "drop_disconnected (filter P xs) (ys @ xs, n) =
           (ys @ filter (\<lambda>c. \<not> P c) xs, n\<lparr>closed_socks := closed_socks n \<union> {c \<in> set xs. P c}\<rparr>)"
  using assms
proof (induction xs arbitrary: ys n)
  case Nil
  then show ?case by simp
next
  case (Cons x xs)
  show ?case
  proof (cases "P x")
    case True
    have notin: "x \<notin> set ys" using Cons.prems True by blast
    then have r: "remove1 x (ys @ x # xs) = ys @ xs"
      by (simp add: remove1_append)
    have "drop_disconnected (filter P (x # xs)) (ys @ x # xs, n)
        = drop_disconnected (filter P xs) (ys @ xs, close_sock n x)"
      using True r by simp
    also have "\<dots> = (ys @ filter (\<lambda>c. \<not> P c) xs,
        (close_sock n x)\<lparr>closed_socks := closed_socks (close_sock n x) \<union> {c \<in> set xs. P c}\<rparr>)"
      using Cons.IH [of ys "close_sock n x"] Cons.prems by blast
    also have "\<dots> = (ys @ filter (\<lambda>c. \<not> P c) (x # xs),
        n\<lparr>closed_socks := closed_socks n \<union> {c \<in> set (x # xs). P c}\<rparr>)"
      using True by (auto simp: close_sock_def intro!: net.equality)
    finally show ?thesis .
  next
    case False
    have p: "\<And>y. y \<in> set (ys @ [x]) \<Longrightarrow> \<not> P y" using Cons.prems False by auto
    have "drop_disconnected (filter P (x # xs)) (ys @ x # xs, n)
        = drop_disconnected (filter P xs) ((ys @ [x]) @ xs, n)"
      using False by simp
    also have "\<dots> = ((ys @ [x]) @ filter (\<lambda>c. \<not> P c) xs,
        n\<lparr>closed_socks := closed_socks n \<union> {c \<in> set xs. P c}\<rparr>)"
      using Cons.IH [of "ys @ [x]" n] p by blast
    also have "\<dots> = (ys @ filter (\<lambda>c. \<not> P c) (x # xs),
        n\<lparr>closed_socks := closed_socks n \<union> {c \<in> set (x # xs). P c}\<rparr>)"
      using False by (auto intro!: net.equality)
    finally show ?thesis .
  qed
qed

lemma notify_clients_eq:
  "notify_clients dumps d (cs, n) =
     (filter (\<lambda>c. \<not> unreachable n c) cs, after_broadcast (dumps d @ newline) cs n)"
proof -
  let ?m = "dumps d @ newline"
  let ?n1 = "n\<lparr>delivered := (\<lambda>c. if unreachable n c then delivered n c
                           else delivered n c @ replicate (count_list cs c) ?m)\<rparr>"
  have "notify_clients dumps d (cs, n) = drop_disconnected (filter (unreachable n) cs) ([] @ cs, ?n1)"
    by (simp add: notify_clients_def send_loop_eq)
  also have "\<dots> = ([] @ filter (\<lambda>c. \<not> unreachable n c) cs,
        ?n1\<lparr>closed_socks := closed_socks ?n1 \<union> {c \<in> set cs. unreachable n c}\<rparr>)"
    by (rule drop_disconnected_eq) simp
  finally show ?thesis by (simp add: after_broadcast_def)
qed

lemma unreachable_after_broadcast [simp]:
  "unreachable (after_broadcast m cs n) c = unreachable n c"
  by (auto simp: unreachable_def after_broadcast_def)

lemma delivered_after_broadcast:
  "delivered (after_broadcast m cs n) c =
     (if unreachable n c then delivered n c else delivered n c @ replicate (count_list cs c) m)"
  by (simp add: after_broadcast_def)

lemma closed_after_broadcast:
  "closed_socks (after_broadcast m cs n) = closed_socks n \<union> {c \<in> set cs. unreachable n c}"
  by (simp add: after_broadcast_def)

lemma count_list_distinct: "distinct cs \<Longrightarrow> c \<in> set cs \<Longrightarrow> count_list cs c = 1"
  by (induction cs) (auto simp: count_list_0_iff)

text \<open>
  A broadcast of the combined daemon over a registry of distinct sockets: a client
  \<open>B\<close> whose connection is sound receives the message once, stays registered and
  stays reachable, whatever happens to the others; a client \<open>A\<close> whose write fails
  is removed from the registry and its socket is closed, and nobody else is removed.
  The next broadcast reaches \<open>B\<close> again.
\<close>

lemma broadcast_isolation:
  assumes "distinct cs" and "B \<in> set cs" and "\<not> unreachable n B"
    and "A \<in> set cs" and "A \<in> broken n"
  shows "delivered (snd (notify_clients dumps d (cs, n))) B = delivered n B @ [dumps d @ newline]
    \<and> B \<in> set (fst (notify_clients dumps d (cs, n)))
    \<and> \<not> unreachable (snd (notify_clients dumps d (cs, n))) B
    \<and> A \<notin> set (fst (notify_clients dumps d (cs, n)))
    \<and> A \<in> closed_socks (snd (notify_clients dumps d (cs, n)))
    \<and> fst (notify_clients dumps d (cs, n)) = filter (\<lambda>c. \<not> unreachable n c) cs
    \<and> delivered (snd (notify_clients dumps d' (notify_clients dumps d (cs, n)))) B
        = delivered n B @ [dumps d @ newline, dumps d' @ newline]"
proof -
  let ?cs' = "filter (\<lambda>c. \<not> unreachable n c) cs"
  let ?n' = "after_broadcast (dumps d @ newline) cs n"
  have A: "unreachable n A" using assms(5) by (simp add: unreachable_def)
  have one: "count_list cs B = 1" using assms(1,2) by (rule count_list_distinct)
  have B': "B \<in> set ?cs'" using assms(2,3) by simp
  have one': "count_list ?cs' B = 1"
    using B' assms(1) by (intro count_list_distinct) simp_all
  have first: "delivered ?n' B = delivered n B @ [dumps d @ newline]"
    using assms(3) one by (simp add: delivered_after_broadcast)
  have second: "delivered (after_broadcast (dumps d' @ newline) ?cs' ?n') B
      = delivered n B @ [dumps d @ newline, dumps d' @ newline]"
    using assms(3) one' first by (simp add: delivered_after_broadcast)
  have closedA: "A \<in> closed_socks ?n'"
    using A assms(4) by (simp add: closed_after_broadcast)
  show ?thesis
    using first second closedA A B' assms(3)
    by (simp add: notify_clients_eq)
qed

lemma broadcast_isolation_example:
  "delivered (snd (notify_clients json_dumps initial_data
       ([1, 2], \<lparr>delivered = (\<lambda>c. []), broken = {1}, closed_socks = {}\<rparr>))) 2
     = [json_dumps initial_data @ newline]
   \<and> fst (notify_clients json_dumps initial_data
       ([1, 2], \<lparr>delivered = (\<lambda>c. []), broken = {1}, closed_socks = {}\<rparr>)) = [2]
   \<and> 1 \<in> closed_socks (snd (notify_clients json_dumps initial_data
       ([1, 2], \<lparr>delivered = (\<lambda>c. []), broken = {1}, closed_socks = {}\<rparr>)))"
proof -
  let ?n = "\<lparr>delivered = (\<lambda>c. []), broken = {1::nat}, closed_socks = {}\<rparr>"
  have h: "distinct [1::nat, 2]" "2 \<in> set [1::nat, 2]" "\<not> unreachable ?n 2"
    "1 \<in> set [1::nat, 2]" "1 \<in> broken ?n"
    by (simp_all add: unreachable_def)
  have f: "filter (\<lambda>c. \<not> unreachable ?n c) [1, 2] = [2]"
    by (simp add: unreachable_def)
  from broadcast_isolation [OF h, of json_dumps initial_data initial_data] f
  show ?thesis by simp
qed


text \<open>
  The broadcast of the time and window daemons, when no other thread runs during it,
  does what the combined daemon's does.
\<close>

lemma broadcast_run_append:
  "broadcast_run m (es @ es') b = broadcast_run m es' (broadcast_run m es b)"
  by (induction es arbitrary: b) simp_all

lemma send_phase:
  "i \<le> length cs \<Longrightarrow>
   broadcast_run m (replicate (length cs - i) SendNext)
      \<lparr>live_clients = cs, link = n, pc = Sending i, disconnected = ds\<rparr>
    = \<lparr>live_clients = cs, link = fst (send_loop m (drop i cs) n ds),
       pc = Sending (length cs), disconnected = snd (send_loop m (drop i cs) n ds)\<rparr>"
proof (induction "length cs - i" arbitrary: i n ds)
  case 0
  then show ?case by simp
next
  case (Suc k)
  then have lt: "i < length cs" and k: "k = length cs - Suc i" and le: "Suc i \<le> length cs"
    by simp_all
  have r: "replicate (length cs - i) SendNext = SendNext # replicate (length cs - Suc i) SendNext"
    using Suc(2) k by (metis replicate_Suc)
  have dr: "drop i cs = cs ! i # drop (Suc i) cs"
    using lt by (simp add: Cons_nth_drop_Suc)
  show ?case
  proof (cases "sendall n (cs ! i) m")
    case None
    have "broadcast_step m SendNext \<lparr>live_clients = cs, link = n, pc = Sending i, disconnected = ds\<rparr>
        = \<lparr>live_clients = cs, link = n, pc = Sending (Suc i), disconnected = ds @ [cs ! i]\<rparr>"
      using lt None by (simp add: broadcast_step_def)
    then show ?thesis
      unfolding r dr using Suc(1) [OF k le, of n "ds @ [cs ! i]"] None by simp
  next
    case (Some n')
    have "broadcast_step m SendNext \<lparr>live_clients = cs, link = n, pc = Sending i, disconnected = ds\<rparr>
        = \<lparr>live_clients = cs, link = n', pc = Sending (Suc i), disconnected = ds\<rparr>"
      using lt Some by (simp add: broadcast_step_def)
    then show ?thesis
      unfolding r dr using Suc(1) [OF k le, of n' ds] Some by simp
  qed
qed

lemma remove_phase:
  assumes "\<And>y. y \<in> set ys \<Longrightarrow> \<not> P y"
  shows "broadcast_run m (replicate (length (filter P xs)) RemoveNext)
      \<lparr>live_clients = ys @ xs, link = n, pc = Removing, disconnected = filter P xs\<rparr>
    = \<lparr>live_clients = ys @ filter (\<lambda>c. \<not> P c) xs,
       link = n\<lparr>closed_socks := closed_socks n \<union> {c \<in> set xs. P c}\<rparr>,
       pc = Removing, disconnected = []\<rparr>"
  using assms
proof (induction xs arbitrary: ys n)
  case Nil
  then show ?case by simp
next
  case (Cons x xs)
  show ?case
  proof (cases "P x")
    case True
    have notin: "x \<notin> set ys" using Cons.prems True by blast
    then have r: "remove1 x (ys @ x # xs) = ys @ xs"
      by (simp add: remove1_append)
    have st: "broadcast_step m RemoveNext
        \<lparr>live_clients = ys @ x # xs, link = n, pc = Removing, disconnected = x # filter P xs\<rparr>
        = \<lparr>live_clients = ys @ xs, link = close_sock n x, pc = Removing, disconnected = filter P xs\<rparr>"
      by (simp add: broadcast_step_def r)
    have cl: "(close_sock n x)\<lparr>closed_socks := closed_socks (close_sock n x) \<union> {c \<in> set xs. P c}\<rparr>
        = n\<lparr>closed_socks := closed_socks n \<union> {c \<in> set (x # xs). P c}\<rparr>"
      using True by (auto simp: close_sock_def intro!: net.equality)
    show ?thesis
      using True st Cons.IH [of ys "close_sock n x"] Cons.prems cl by simp
  next
    case False
    have p: "\<And>y. y \<in> set (ys @ [x]) \<Longrightarrow> \<not> P y" using Cons.prems False by auto
    have cl: "n\<lparr>closed_socks := closed_socks n \<union> {c \<in> set xs. P c}\<rparr>
        = n\<lparr>closed_socks := closed_socks n \<union> {c \<in> set (x # xs). P c}\<rparr>"
      using False by (auto intro!: net.equality)
    show ?thesis
      using False Cons.IH [of "ys @ [x]" n] p cl by simp
  qed
qed

lemma uninterrupted_broadcast:
  "broadcast_run m (uninterrupted (length cs) (length (filter (unreachable n) cs)))
      \<lparr>live_clients = cs, link = n, pc = Idle, disconnected = ds\<rparr>
    = \<lparr>live_clients = filter (\<lambda>c. \<not> unreachable n c) cs, link = after_broadcast m cs n,
       pc = Idle, disconnected = []\<rparr>"
proof -
  let ?n1 = "n\<lparr>delivered := (\<lambda>c. if unreachable n c then delivered n c
                           else delivered n c @ replicate (count_list cs c) m)\<rparr>"
  let ?f = "filter (unreachable n) cs"
  have s0: "broadcast_step m Start \<lparr>live_clients = cs, link = n, pc = Idle, disconnected = ds\<rparr>
      = \<lparr>live_clients = cs, link = n, pc = Sending 0, disconnected = []\<rparr>"
    by (simp add: broadcast_step_def)
  have s1: "broadcast_run m (replicate (length cs) SendNext)
        \<lparr>live_clients = cs, link = n, pc = Sending 0, disconnected = []\<rparr>
      = \<lparr>live_clients = cs, link = ?n1, pc = Sending (length cs), disconnected = ?f\<rparr>"
    using send_phase [of 0 cs m n "[]"] by (simp add: send_loop_eq)
  have s2: "broadcast_step m SendNext
        \<lparr>live_clients = cs, link = ?n1, pc = Sending (length cs), disconnected = ?f\<rparr>
      = \<lparr>live_clients = cs, link = ?n1, pc = Removing, disconnected = ?f\<rparr>"
    by (simp add: broadcast_step_def)
  have s3: "broadcast_run m (replicate (length ?f) RemoveNext)
        \<lparr>live_clients = [] @ cs, link = ?n1, pc = Removing, disconnected = ?f\<rparr>
      = \<lparr>live_clients = [] @ filter (\<lambda>c. \<not> unreachable n c) cs,
         link = ?n1\<lparr>closed_socks := closed_socks ?n1 \<union> {c \<in> set cs. unreachable n c}\<rparr>,
         pc = Removing, disconnected = []\<rparr>"
    by (rule remove_phase) simp
  have s4: "broadcast_step m RemoveNext
        \<lparr>live_clients = filter (\<lambda>c. \<not> unreachable n c) cs, link = after_broadcast m cs n,
         pc = Removing, disconnected = []\<rparr>
      = \<lparr>live_clients = filter (\<lambda>c. \<not> unreachable n c) cs, link = after_broadcast m cs n,
         pc = Idle, disconnected = []\<rparr>"
    by (simp add: broadcast_step_def)
  have ab: "?n1\<lparr>closed_socks := closed_socks ?n1 \<union> {c \<in> set cs. unreachable n c}\<rparr>
      = after_broadcast m cs n"
    by (simp add: after_broadcast_def)
  have u: "uninterrupted (length cs) (length ?f)
      = [Start] @ replicate (length cs) SendNext @ [SendNext]
          @ replicate (length ?f) RemoveNext @ [RemoveNext]"
    by (simp add: uninterrupted_def replicate_append_same)
  show ?thesis
    unfolding u broadcast_run_append
    using s0 s1 s2 s3 s4 ab by simp
qed

lemmas race_eval = two_clients_first_gone_def broadcast_step_def locked_broadcast_step_def
  sendall_def close_sock_def unreachable_def uninterrupted_def Let_def

lemma time_broadcast_undisturbed:
  "delivered (link (broadcast_run message (uninterrupted 2 1) two_clients_first_gone)) 2 = [message]
   \<and> live_clients (broadcast_run message (uninterrupted 2 1) two_clients_first_gone) = [2]
   \<and> pc (broadcast_run message (uninterrupted 2 1) two_clients_first_gone) = Idle"
proof -
  have "uninterrupted 2 1 = [Start, SendNext, SendNext, SendNext, RemoveNext, RemoveNext]"
    by (simp add: uninterrupted_def eval_nat_numeral)
  then show ?thesis by (simp add: race_eval)
qed

lemma locked_broadcast_same_race:
  "delivered (link (fst (locked_broadcast_run message
       [Start, SendNext, Handler 1, SendNext, SendNext, RemoveNext, RemoveNext]
       (two_clients_first_gone, [])))) 2 = [message]
   \<and> live_clients (fst (locked_broadcast_run message
       [Start, SendNext, Handler 1, SendNext, SendNext, RemoveNext, RemoveNext]
       (two_clients_first_gone, []))) = [2]
   \<and> pc (fst (locked_broadcast_run message
       [Start, SendNext, Handler 1, SendNext, SendNext, RemoveNext, RemoveNext]
       (two_clients_first_gone, []))) = Idle"
  by (simp add: race_eval)

text \<open>
  Claim C7.  A write failure on one client must cost only that client: every other
  registered client still receives the message, and no error reaches the change
  source.  The time and window daemons break this when the handler thread of the
  failed client runs during the broadcast.  Clients 1 and 2 are registered and the
  peer of 1 has gone.  The broadcast fails to write to 1; the handler of 1 then
  fails to write its initial message and removes 1 from the list; the broadcast's
  iterator, at index 1, finds the list one element long and stops, so client 2,
  registered and reachable, gets nothing; and the removal of 1, which is no longer in
  the list, raises \<open>ValueError\<close> into the monitoring loop.
\<close>

theorem time_broadcast_race:
  "live_clients (broadcast_run message [Start, SendNext, Handler 1, SendNext, RemoveNext]
       two_clients_first_gone) = [2]
   \<and> \<not> unreachable (link (broadcast_run message [Start, SendNext, Handler 1, SendNext, RemoveNext]
       two_clients_first_gone)) 2
   \<and> delivered (link (broadcast_run message [Start, SendNext, Handler 1, SendNext, RemoveNext]
       two_clients_first_gone)) 2 = []
   \<and> pc (broadcast_run message [Start, SendNext, Handler 1, SendNext, RemoveNext]
       two_clients_first_gone) = Raised ValueError"
  by (simp add: race_eval)

section \<open>The first message of a connection\<close>










section \<open>Reading the example files\<close>

lemmas read_eval = read_int_def read_text_def strip_def is_py_space_def py_int_of_str_def
  parse_unsigned_def digit_val_def truthy_def brightness_path_def max_brightness_path_def
  battery_dir_def laptop_paths_def laptop_files_def

lemma sq_50: "scaled_quotient 50 100 100 = Some 50"
  by code_simp

lemma laptop_backlight_50:
  "get_backlight_percentage_internal (laptop_paths present) (laptop_files battery ''50'' ''100'')
     = Inr (Some 50)"
  by (simp add: get_backlight_percentage_internal_def read_eval sq_50)

section \<open>Floating-point results that are exact\<close>








section \<open>The state store of the combined daemon\<close>

lemma store_file_data_eq:
  "store_file_data cd b c t bl =
     (cd\<lparr>battery_percentage := b, is_charging := c, battery_time_remaining := t,
         backlight_percentage := bl\<rparr>,
      battery_percentage cd \<noteq> b \<or> is_charging cd \<noteq> c \<or> battery_time_remaining cd \<noteq> t
        \<or> backlight_percentage cd \<noteq> bl)"
  by (cases cd) (auto simp: store_file_data_def)

lemma store_audio_data_eq:
  "store_audio_data cd speaker mic =
     (cd\<lparr>volume_percentage := (case speaker of Some (v, m) \<Rightarrow> Some v | None \<Rightarrow> volume_percentage cd),
         speaker_muted := (case speaker of Some (v, m) \<Rightarrow> Some m | None \<Rightarrow> speaker_muted cd),
         mic_muted := (case mic of Some m \<Rightarrow> Some m | None \<Rightarrow> mic_muted cd)\<rparr>,
      (case speaker of Some (v, m) \<Rightarrow> Some v \<noteq> volume_percentage cd \<or> Some m \<noteq> speaker_muted cd
                     | None \<Rightarrow> False)
        \<or> (case mic of Some m \<Rightarrow> Some m \<noteq> mic_muted cd | None \<Rightarrow> False))"
  by (cases cd) (auto simp: store_audio_data_def Let_def split: option.splits)

lemma store_input_spec:
  "store_input cd x = (spec_merge cd (as_update x), spec_changed cd (as_update x))"
proof (cases x)
  case (FileData b c t bl)
  then show ?thesis
    by (cases cd) (auto simp: store_input_def store_file_data_eq spec_merge_def spec_changed_def
        as_update_def merged_def)
next
  case (AudioData speaker mic)
  then show ?thesis
    by (cases cd) (auto simp: store_input_def store_audio_data_eq spec_merge_def spec_changed_def
        as_update_def merged_def split: option.splits)
qed

lemma spec_changed_iff: "spec_changed cd u = (spec_merge cd u \<noteq> cd)"
  by (cases cd) (auto simp: spec_changed_def spec_merge_def)

lemma store_all_snoc: "store_all cd (xs @ [x]) = fst (store_input (store_all cd xs) x)"
  by (induction xs arbitrary: cd) simp_all

lemma store_trace_snoc:
  "store_trace cd (xs @ [x]) =
     store_trace cd xs @ [(store_all cd xs, x, snd (store_input (store_all cd xs) x))]"
  by (induction xs arbitrary: cd) simp_all

lemma store_all_most_recent:
  "store_all cd xs =
     (case find (\<lambda>(prior, x, changed). changed) (rev (store_trace cd xs)) of
        None \<Rightarrow> cd
      | Some (prior, x, changed) \<Rightarrow> spec_merge prior (as_update x))"
proof (induction xs rule: rev_induct)
  case Nil
  then show ?case by simp
next
  case (snoc x xs)
  show ?case
  proof (cases "spec_changed (store_all cd xs) (as_update x)")
    case True
    then show ?thesis
      by (simp add: store_all_snoc store_trace_snoc store_input_spec)
  next
    case False
    then have "spec_merge (store_all cd xs) (as_update x) = store_all cd xs"
      by (simp add: spec_changed_iff)
    with False snoc.IH show ?thesis
      by (simp add: store_all_snoc store_trace_snoc store_input_spec)
  qed
qed

lemma on_audio_broadcast:
  "(registry (on_audio_state_changed a s), wire (on_audio_state_changed a s)) =
     (if data (on_audio_state_changed a s) \<noteq> data s
      then notify_clients json_dumps (data (on_audio_state_changed a s)) (registry s, wire s)
      else (registry s, wire s))"
  apply (simp add: on_audio_state_changed_def Let_def store_audio_data_eq split: option.splits prod.splits)
  apply (cases "data s")
  apply (auto split: option.splits)
  done

lemma update_file_data_unfolded:
  assumes "get_backlight_percentage_internal (paths s) files = Inr bl"
    and "sampled_file_data force now files s bl = FileData b c t bl"
    and "(force \<or> 30 \<le> now - last_battery_update s) \<longrightarrow>
           get_battery_info_internal (paths s) files = (b, c, t)"
    and "\<not> (force \<or> 30 \<le> now - last_battery_update s) \<longrightarrow>
           (battery_percentage (data s), is_charging (data s), battery_time_remaining (data s)) = (b, c, t)"
  shows "update_file_data_and_notify force now files s =
     Inr (s\<lparr>data := fst (store_file_data (data s) b c t bl),
            last_battery_update :=
              (if force \<or> 30 \<le> now - last_battery_update s then now else last_battery_update s),
            registry := fst (if snd (store_file_data (data s) b c t bl)
                             then notify_clients json_dumps (fst (store_file_data (data s) b c t bl))
                                    (registry s, wire s)
                             else (registry s, wire s)),
            wire := snd (if snd (store_file_data (data s) b c t bl)
                         then notify_clients json_dumps (fst (store_file_data (data s) b c t bl))
                                (registry s, wire s)
                         else (registry s, wire s))\<rparr>)"
proof (cases "force \<or> 30 \<le> now - last_battery_update s")
  case True
  with assms(3) have g: "get_battery_info_internal (paths s) files = (b, c, t)" by blast
  show ?thesis
    using True by (simp add: update_file_data_and_notify_def assms(1) g Let_def case_prod_beta)
next
  case False
  with assms(4) have g: "battery_percentage (data s) = b" "is_charging (data s) = c"
    "battery_time_remaining (data s) = t" by auto
  show ?thesis
    using False g by (simp add: update_file_data_and_notify_def assms(1) Let_def case_prod_beta)
qed

lemma update_file_data_exact:
  "(case get_backlight_percentage_internal (paths s) files of
      Inl err \<Rightarrow> update_file_data_and_notify force now files s = Inl err
    | Inr bl \<Rightarrow>
        (\<exists>s'. update_file_data_and_notify force now files s = Inr s'
           \<and> data s' = fst (store_input (data s) (sampled_file_data force now files s bl))
           \<and> (registry s', wire s') =
               (if snd (store_input (data s) (sampled_file_data force now files s bl))
                then notify_clients json_dumps (data s') (registry s, wire s)
                else (registry s, wire s))))"
proof (cases "get_backlight_percentage_internal (paths s) files")
  case (Inl err)
  then show ?thesis by (simp add: update_file_data_and_notify_def)
next
  case (Inr bl)
  have "\<exists>b c t. sampled_file_data force now files s bl = FileData b c t bl
      \<and> ((force \<or> 30 \<le> now - last_battery_update s) \<longrightarrow>
           get_battery_info_internal (paths s) files = (b, c, t))
      \<and> (\<not> (force \<or> 30 \<le> now - last_battery_update s) \<longrightarrow>
           (battery_percentage (data s), is_charging (data s), battery_time_remaining (data s)) = (b, c, t))"
  proof (cases "force \<or> 30 \<le> now - last_battery_update s")
    case True
    obtain b c t where g: "get_battery_info_internal (paths s) files = (b, c, t)"
      using prod_cases3 by blast
    with True have "sampled_file_data force now files s bl = FileData b c t bl"
      by (simp add: sampled_file_data_def)
    with True g show ?thesis by blast
  next
    case False
    then have "sampled_file_data force now files s bl =
        FileData (battery_percentage (data s)) (is_charging (data s))
          (battery_time_remaining (data s)) bl"
      by (simp add: sampled_file_data_def)
    with False show ?thesis by blast
  qed
  then obtain b c t where x: "sampled_file_data force now files s bl = FileData b c t bl"
    and h1: "(force \<or> 30 \<le> now - last_battery_update s) \<longrightarrow>
           get_battery_info_internal (paths s) files = (b, c, t)"
    and h2: "\<not> (force \<or> 30 \<le> now - last_battery_update s) \<longrightarrow>
           (battery_percentage (data s), is_charging (data s), battery_time_remaining (data s)) = (b, c, t)"
    by blast
  note u = update_file_data_unfolded [OF Inr x h1 h2]
  have si: "store_input (data s) (FileData b c t bl) = store_file_data (data s) b c t bl"
    by (simp add: store_input_def)
  show ?thesis
    by (simp add: Inr x si u)
qed

lemma on_audio_store:
  "on_audio_state_changed None s = s
   \<and> data (on_audio_state_changed (Some (speaker, mic)) s)
       = fst (store_input (data s) (AudioData speaker mic))
   \<and> (data (on_audio_state_changed (Some (speaker, mic)) s) \<noteq> data s)
       = snd (store_input (data s) (AudioData speaker mic))"
proof -
  have d: "data (on_audio_state_changed (Some (speaker, mic)) s)
       = fst (store_input (data s) (AudioData speaker mic))"
    by (simp add: on_audio_state_changed_def Let_def store_input_def split: prod.splits)
  have "(fst (store_input (data s) (AudioData speaker mic)) \<noteq> data s)
      = snd (store_input (data s) (AudioData speaker mic))"
    by (simp add: store_input_spec spec_changed_iff)
  with d show ?thesis by (simp add: on_audio_state_changed_def)
qed

text \<open>
  Claim C1.  Both adapters' stores are the merge of a partial update: unspecified
  fields keep their value, specified fields are replaced, and a change is reported
  exactly when the merged snapshot differs from the stored one.  After any sequence
  of inputs the store is the merge of the most recent input that was reported as a
  change into the store it met (and the initial store when none was).  The file
  update stores exactly the values its adapters return (the backlight just computed,
  and the battery values just read or, inside the refresh window, the stored ones),
  the audio callback exactly the mixer's values; each broadcasts the new snapshot
  through \<open>notify_clients\<close> when the store reported a change, and leaves the data,
  the registry and the network as they were when it did not.
\<close>

theorem state_store_merge:
  "store_input cd x = (spec_merge cd (as_update x), spec_changed cd (as_update x))
   \<and> spec_changed cd u = (spec_merge cd u \<noteq> cd)
   \<and> store_all cd xs =
       (case find (\<lambda>(prior, x, changed). changed) (rev (store_trace cd xs)) of
          None \<Rightarrow> cd
        | Some (prior, x, changed) \<Rightarrow> spec_merge prior (as_update x))
   \<and> (case get_backlight_percentage_internal (paths s) files of
         Inl err \<Rightarrow> update_file_data_and_notify force now files s = Inl err
       | Inr bl \<Rightarrow>
           (\<exists>s'. update_file_data_and_notify force now files s = Inr s'
              \<and> data s' = fst (store_input (data s) (sampled_file_data force now files s bl))
              \<and> (registry s', wire s') =
                  (if snd (store_input (data s) (sampled_file_data force now files s bl))
                   then notify_clients json_dumps (data s') (registry s, wire s)
                   else (registry s, wire s))))
   \<and> on_audio_state_changed None s = s
   \<and> data (on_audio_state_changed (Some (speaker, mic)) s)
       = fst (store_input (data s) (AudioData speaker mic))
   \<and> (registry (on_audio_state_changed (Some (speaker, mic)) s),
       wire (on_audio_state_changed (Some (speaker, mic)) s)) =
       (if snd (store_input (data s) (AudioData speaker mic))
        then notify_clients json_dumps (data (on_audio_state_changed (Some (speaker, mic)) s))
               (registry s, wire s)
        else (registry s, wire s))"
proof -
  note a = on_audio_store [where s = s and speaker = speaker and mic = mic]
  have b: "(registry (on_audio_state_changed (Some (speaker, mic)) s),
       wire (on_audio_state_changed (Some (speaker, mic)) s)) =
       (if snd (store_input (data s) (AudioData speaker mic))
        then notify_clients json_dumps (data (on_audio_state_changed (Some (speaker, mic)) s))
               (registry s, wire s)
        else (registry s, wire s))"
  proof -
    have c: "(data (on_audio_state_changed (Some (speaker, mic)) s) \<noteq> data s)
        = snd (store_input (data s) (AudioData speaker mic))"
      using a by blast
    show ?thesis
      unfolding c [symmetric] by (rule on_audio_broadcast)
  qed
  show ?thesis
    using store_input_spec [of cd x] spec_changed_iff [of cd u] store_all_most_recent [of cd xs]
      update_file_data_exact [where force = force and now = now and files = files and s = s]
      a b
    by blast
qed

theorem state_store_merge_witness:
  "(\<exists>s1. update_file_data_and_notify False 1010
            (laptop_files [(''capacity'', ''12''), (''status'', ''Discharging'')] ''50'' ''100'')
            ((laptop_service [''capacity'', ''status'']
               (initial_data\<lparr>battery_percentage := Some 87\<rparr>) 1000)\<lparr>registry := [1]\<rparr>) = Inr s1
         \<and> data s1 = initial_data\<lparr>battery_percentage := Some 87, backlight_percentage := Some 50\<rparr>
         \<and> registry s1 = [1]
         \<and> delivered (wire s1) 1 =
             [json_dumps (initial_data\<lparr>battery_percentage := Some 87,
                                        backlight_percentage := Some 50\<rparr>) @ newline])
   \<and> (\<exists>s2. update_file_data_and_notify False 1010
            (laptop_files [(''capacity'', ''12''), (''status'', ''Discharging'')] ''50'' ''100'')
            ((laptop_service [''capacity'', ''status'']
               (initial_data\<lparr>battery_percentage := Some 87, backlight_percentage := Some 50\<rparr>)
               1000)\<lparr>registry := [1]\<rparr>) = Inr s2
         \<and> data s2 = initial_data\<lparr>battery_percentage := Some 87, backlight_percentage := Some 50\<rparr>
         \<and> registry s2 = [1]
         \<and> delivered (wire s2) 1 = [])"
proof -
  let ?files = "laptop_files [(''capacity'', ''12''), (''status'', ''Discharging'')] ''50'' ''100''"
  let ?d0 = "initial_data\<lparr>battery_percentage := Some 87\<rparr>"
  let ?d1 = "initial_data\<lparr>battery_percentage := Some 87, backlight_percentage := Some 50\<rparr>"
  let ?sa = "(laptop_service [''capacity'', ''status''] ?d0 1000)\<lparr>registry := [1]\<rparr>"
  let ?sb = "(laptop_service [''capacity'', ''status''] ?d1 1000)\<lparr>registry := [1]\<rparr>"
  let ?x = "FileData (Some 87) False None (Some 50)"
  have ba: "get_backlight_percentage_internal (paths ?sa) ?files = Inr (Some 50)"
    using laptop_backlight_50 by (simp add: laptop_service_def)
  have bb: "get_backlight_percentage_internal (paths ?sb) ?files = Inr (Some 50)"
    using laptop_backlight_50 by (simp add: laptop_service_def)
  have xa: "sampled_file_data False 1010 ?files ?sa (Some 50) = ?x"
    by (simp add: sampled_file_data_def laptop_service_def initial_data_def)
  have xb: "sampled_file_data False 1010 ?files ?sb (Some 50) = ?x"
    by (simp add: sampled_file_data_def laptop_service_def initial_data_def)
  have ia: "store_input ?d0 ?x = (?d1, True)"
    by (simp add: store_input_def store_file_data_eq initial_data_def)
  have ib: "store_input ?d1 ?x = (?d1, False)"
    by (simp add: store_input_def store_file_data_eq initial_data_def)
  have da: "data ?sa = ?d0" "registry ?sa = [1]"
    "wire ?sa = \<lparr>delivered = (\<lambda>c. []), broken = {}, closed_socks = {}\<rparr>"
    by (simp_all add: laptop_service_def)
  have db: "data ?sb = ?d1" "registry ?sb = [1]"
    "wire ?sb = \<lparr>delivered = (\<lambda>c. []), broken = {}, closed_socks = {}\<rparr>"
    by (simp_all add: laptop_service_def)
  have n: "notify_clients json_dumps ?d1
             ([1], \<lparr>delivered = (\<lambda>c. []), broken = {}, closed_socks = {}\<rparr>)
         = ([1], after_broadcast (json_dumps ?d1 @ newline) [1]
                   \<lparr>delivered = (\<lambda>c. []), broken = {}, closed_socks = {}\<rparr>)"
    by (simp add: notify_clients_eq unreachable_def)
  have dl: "delivered (after_broadcast (json_dumps ?d1 @ newline) [1]
                   \<lparr>delivered = (\<lambda>c. []), broken = {}, closed_socks = {}\<rparr>) 1
         = [json_dumps ?d1 @ newline]"
    by (simp add: delivered_after_broadcast unreachable_def)
  have "case get_backlight_percentage_internal (paths ?sa) ?files of
         Inl err \<Rightarrow> update_file_data_and_notify False 1010 ?files ?sa = Inl err
       | Inr bl \<Rightarrow>
           (\<exists>s'. update_file_data_and_notify False 1010 ?files ?sa = Inr s'
              \<and> data s' = fst (store_input (data ?sa) (sampled_file_data False 1010 ?files ?sa bl))
              \<and> (registry s', wire s') =
                  (if snd (store_input (data ?sa) (sampled_file_data False 1010 ?files ?sa bl))
                   then notify_clients json_dumps (data s') (registry ?sa, wire ?sa)
                   else (registry ?sa, wire ?sa)))"
    using state_store_merge [where s = "?sa" and files = "?files" and force = False and now = 1010
        and cd = initial_data and x = "?x" and u = "as_update ?x" and xs = "[]"
        and speaker = None and mic = None]
    by blast
  then have "\<exists>s'. update_file_data_and_notify False 1010 ?files ?sa = Inr s'
           \<and> data s' = fst (store_input (data ?sa) (sampled_file_data False 1010 ?files ?sa (Some 50)))
           \<and> (registry s', wire s') =
               (if snd (store_input (data ?sa) (sampled_file_data False 1010 ?files ?sa (Some 50)))
                then notify_clients json_dumps (data s') (registry ?sa, wire ?sa)
                else (registry ?sa, wire ?sa))"
    unfolding ba by simp
  then obtain s1 where 1: "update_file_data_and_notify False 1010 ?files ?sa = Inr s1"
    and 2: "data s1 = fst (store_input (data ?sa) (sampled_file_data False 1010 ?files ?sa (Some 50)))"
    and 3: "(registry s1, wire s1) =
               (if snd (store_input (data ?sa) (sampled_file_data False 1010 ?files ?sa (Some 50)))
                then notify_clients json_dumps (data s1) (registry ?sa, wire ?sa)
                else (registry ?sa, wire ?sa))"
    by blast
  from 2 have d1: "data s1 = ?d1" unfolding xa da ia by simp
  from 3 have "(registry s1, wire s1) = ([1], after_broadcast (json_dumps ?d1 @ newline) [1]
                   \<lparr>delivered = (\<lambda>c. []), broken = {}, closed_socks = {}\<rparr>)"
    unfolding xa da ia d1 n by simp
  with dl have r1: "registry s1 = [1]" "delivered (wire s1) 1 = [json_dumps ?d1 @ newline]"
    by simp_all
  have "case get_backlight_percentage_internal (paths ?sb) ?files of
         Inl err \<Rightarrow> update_file_data_and_notify False 1010 ?files ?sb = Inl err
       | Inr bl \<Rightarrow>
           (\<exists>s'. update_file_data_and_notify False 1010 ?files ?sb = Inr s'
              \<and> data s' = fst (store_input (data ?sb) (sampled_file_data False 1010 ?files ?sb bl))
              \<and> (registry s', wire s') =
                  (if snd (store_input (data ?sb) (sampled_file_data False 1010 ?files ?sb bl))
                   then notify_clients json_dumps (data s') (registry ?sb, wire ?sb)
                   else (registry ?sb, wire ?sb)))"
    using state_store_merge [where s = "?sb" and files = "?files" and force = False and now = 1010
        and cd = initial_data and x = "?x" and u = "as_update ?x" and xs = "[]"
        and speaker = None and mic = None]
    by blast
  then have "\<exists>s'. update_file_data_and_notify False 1010 ?files ?sb = Inr s'
           \<and> data s' = fst (store_input (data ?sb) (sampled_file_data False 1010 ?files ?sb (Some 50)))
           \<and> (registry s', wire s') =
               (if snd (store_input (data ?sb) (sampled_file_data False 1010 ?files ?sb (Some 50)))
                then notify_clients json_dumps (data s') (registry ?sb, wire ?sb)
                else (registry ?sb, wire ?sb))"
    unfolding bb by simp
  then obtain s2 where 4: "update_file_data_and_notify False 1010 ?files ?sb = Inr s2"
    and 5: "data s2 = fst (store_input (data ?sb) (sampled_file_data False 1010 ?files ?sb (Some 50)))"
    and 6: "(registry s2, wire s2) =
               (if snd (store_input (data ?sb) (sampled_file_data False 1010 ?files ?sb (Some 50)))
                then notify_clients json_dumps (data s2) (registry ?sb, wire ?sb)
                else (registry ?sb, wire ?sb))"
    by blast
  from 5 have d2: "data s2 = ?d1" unfolding xb db ib by simp
  from 6 have "(registry s2, wire s2) = ([1], \<lparr>delivered = (\<lambda>c. []), broken = {}, closed_socks = {}\<rparr>)"
    unfolding xb db ib by simp
  then have r2: "registry s2 = [1]" "delivered (wire s2) 1 = []"
    by simp_all
  from 1 d1 r1 4 d2 r2 show ?thesis by blast
qed

section \<open>Rate limit of the battery refresh\<close>

lemma update_within_window:
  assumes "\<not> force" and "now - last_battery_update s < 30"
    and "update_file_data_and_notify force now files s = Inr s'"
  shows "battery_percentage (data s') = battery_percentage (data s)
    \<and> is_charging (data s') = is_charging (data s)
    \<and> battery_time_remaining (data s') = battery_time_remaining (data s)
    \<and> last_battery_update s' = last_battery_update s
    \<and> get_backlight_percentage_internal (paths s) files = Inr (backlight_percentage (data s'))"
  using assms
  by (auto simp: update_file_data_and_notify_def Let_def store_file_data_eq
      split: sum.splits prod.splits)

lemma update_refreshes:
  assumes "force \<or> 30 \<le> now - last_battery_update s"
    and "update_file_data_and_notify force now files s = Inr s'"
  shows "(battery_percentage (data s'), is_charging (data s'), battery_time_remaining (data s'))
        = get_battery_info_internal (paths s) files
    \<and> last_battery_update s' = now
    \<and> get_backlight_percentage_internal (paths s) files = Inr (backlight_percentage (data s'))"
  using assms
  by (auto simp: update_file_data_and_notify_def Let_def store_file_data_eq
      split: sum.splits prod.splits)

lemma backlight_reads_only_backlight:
  assumes "read_int files2 (backlight_brightness_file p) = read_int files (backlight_brightness_file p)"
    and "read_int files2 (backlight_max_brightness_file p) = read_int files (backlight_max_brightness_file p)"
  shows "get_backlight_percentage_internal p files2 = get_backlight_percentage_internal p files"
  using assms by (simp add: get_backlight_percentage_internal_def split: option.splits)

lemma update_ignores_battery_files:
  assumes "\<not> force" and "now - last_battery_update s < 30"
    and "read_int files2 (backlight_brightness_file (paths s))
          = read_int files (backlight_brightness_file (paths s))"
    and "read_int files2 (backlight_max_brightness_file (paths s))
          = read_int files (backlight_max_brightness_file (paths s))"
  shows "update_file_data_and_notify force now files2 s = update_file_data_and_notify force now files s"
proof -
  have w: "\<not> (force \<or> 30 \<le> now - last_battery_update s)" using assms(1,2) by simp
  have b: "get_backlight_percentage_internal (paths s) files2
      = get_backlight_percentage_internal (paths s) files"
    using assms(3,4) by (rule backlight_reads_only_backlight)
  show ?thesis
    unfolding update_file_data_and_notify_def b using w
    by (simp add: Let_def split: sum.splits)
qed

lemma update_keeps_paths:
  "update_file_data_and_notify force now files s = Inr s' \<Longrightarrow> paths s' = paths s"
  by (auto simp: update_file_data_and_notify_def Let_def split: sum.splits prod.splits)

text \<open>
  Claim C8.  For an update that returns: when it is not forced and less than 30
  seconds have passed since the last battery refresh, the three battery fields and
  the time of the last refresh stay as stored, the result is the same for any other
  content of the battery files (they are not read), and a second such update inside
  the window keeps the battery fields again while storing the backlight it computes;
  when it is forced, or 30 seconds have passed, the battery fields are what
  \<open>get_battery_info_internal\<close> reads now and the refresh time is the current time.
  The backlight is recomputed in every case.
\<close>

theorem battery_refresh_rate_limit:
  assumes "update_file_data_and_notify force now files s = Inr s'"
  shows "(\<not> force \<and> now - last_battery_update s < 30 \<longrightarrow>
            battery_percentage (data s') = battery_percentage (data s)
          \<and> is_charging (data s') = is_charging (data s)
          \<and> battery_time_remaining (data s') = battery_time_remaining (data s)
          \<and> last_battery_update s' = last_battery_update s
          \<and> (\<forall>files2.
                read_int files2 (backlight_brightness_file (paths s))
                  = read_int files (backlight_brightness_file (paths s))
              \<and> read_int files2 (backlight_max_brightness_file (paths s))
                  = read_int files (backlight_max_brightness_file (paths s))
              \<longrightarrow> update_file_data_and_notify force now files2 s = Inr s')
          \<and> (\<forall>now2 files2 s''.
                now2 - last_battery_update s < 30
              \<and> update_file_data_and_notify False now2 files2 s' = Inr s''
              \<longrightarrow> battery_percentage (data s'') = battery_percentage (data s)
                \<and> is_charging (data s'') = is_charging (data s)
                \<and> battery_time_remaining (data s'') = battery_time_remaining (data s)
                \<and> get_backlight_percentage_internal (paths s) files2
                    = Inr (backlight_percentage (data s''))))
     \<and> (force \<or> 30 \<le> now - last_battery_update s \<longrightarrow>
            (battery_percentage (data s'), is_charging (data s'), battery_time_remaining (data s'))
              = get_battery_info_internal (paths s) files
          \<and> last_battery_update s' = now)
     \<and> get_backlight_percentage_internal (paths s) files = Inr (backlight_percentage (data s'))"
proof (intro conjI impI allI)
  show bl: "get_backlight_percentage_internal (paths s) files = Inr (backlight_percentage (data s'))"
  proof (cases "force \<or> 30 \<le> now - last_battery_update s")
    case True
    from update_refreshes [OF True assms] show ?thesis by simp
  next
    case False
    then have "\<not> force" "now - last_battery_update s < 30" by simp_all
    from update_within_window [OF this assms] show ?thesis by simp
  qed
next
  assume r: "force \<or> 30 \<le> now - last_battery_update s"
  from update_refreshes [OF r assms]
  show "(battery_percentage (data s'), is_charging (data s'), battery_time_remaining (data s'))
          = get_battery_info_internal (paths s) files"
    by simp
next
  assume r: "force \<or> 30 \<le> now - last_battery_update s"
  from update_refreshes [OF r assms] show "last_battery_update s' = now" by simp
next
  assume w: "\<not> force \<and> now - last_battery_update s < 30"
  then have nf: "\<not> force" and lt: "now - last_battery_update s < 30" by simp_all
  from update_within_window [OF nf lt assms]
  show "battery_percentage (data s') = battery_percentage (data s)" by simp
next
  assume w: "\<not> force \<and> now - last_battery_update s < 30"
  then have nf: "\<not> force" and lt: "now - last_battery_update s < 30" by simp_all
  from update_within_window [OF nf lt assms]
  show "is_charging (data s') = is_charging (data s)" by simp
next
  assume w: "\<not> force \<and> now - last_battery_update s < 30"
  then have nf: "\<not> force" and lt: "now - last_battery_update s < 30" by simp_all
  from update_within_window [OF nf lt assms]
  show "battery_time_remaining (data s') = battery_time_remaining (data s)" by simp
next
  assume w: "\<not> force \<and> now - last_battery_update s < 30"
  then have nf: "\<not> force" and lt: "now - last_battery_update s < 30" by simp_all
  from update_within_window [OF nf lt assms]
  show "last_battery_update s' = last_battery_update s" by simp
next
  fix files2
  assume w: "\<not> force \<and> now - last_battery_update s < 30"
    and same: "read_int files2 (backlight_brightness_file (paths s))
                  = read_int files (backlight_brightness_file (paths s))
              \<and> read_int files2 (backlight_max_brightness_file (paths s))
                  = read_int files (backlight_max_brightness_file (paths s))"
  from w have nf: "\<not> force" and lt: "now - last_battery_update s < 30" by simp_all
  from same have s1: "read_int files2 (backlight_brightness_file (paths s))
                  = read_int files (backlight_brightness_file (paths s))"
    and s2: "read_int files2 (backlight_max_brightness_file (paths s))
                  = read_int files (backlight_max_brightness_file (paths s))" by simp_all
  from update_ignores_battery_files [OF nf lt s1 s2] assms
  show "update_file_data_and_notify force now files2 s = Inr s'" by simp
next
  fix now2 files2 s''
  assume w: "\<not> force \<and> now - last_battery_update s < 30"
    and a: "now2 - last_battery_update s < 30
              \<and> update_file_data_and_notify False now2 files2 s' = Inr s''"
  from w have nf: "\<not> force" and lt: "now - last_battery_update s < 30" by simp_all
  note first = update_within_window [OF nf lt assms]
  from a first have lt2: "now2 - last_battery_update s' < 30" by simp
  from a have u2: "update_file_data_and_notify False now2 files2 s' = Inr s''" by simp
  have nf2: "\<not> False" by simp
  note second = update_within_window [OF nf2 lt2 u2]
  have p: "paths s' = paths s" using assms by (rule update_keeps_paths)
  show "battery_percentage (data s'') = battery_percentage (data s)"
    using first second by simp
  show "is_charging (data s'') = is_charging (data s)"
    using first second by simp
  show "battery_time_remaining (data s'') = battery_time_remaining (data s)"
    using first second by simp
  show "get_backlight_percentage_internal (paths s) files2 = Inr (backlight_percentage (data s''))"
    using second p by simp
qed

theorem battery_refresh_rate_limit_witness:
  "\<exists>s1. update_file_data_and_notify False 1010
           (laptop_files [(''capacity'', ''12''), (''status'', ''Discharging'')] ''50'' ''100'')
           (laptop_service [''capacity'', ''status'']
              (initial_data\<lparr>battery_percentage := Some 87\<rparr>) 1000) = Inr s1
        \<and> battery_percentage (data s1) = Some 87
        \<and> backlight_percentage (data s1) = Some 50
        \<and> last_battery_update s1 = 1000"
proof -
  let ?files = "laptop_files [(''capacity'', ''12''), (''status'', ''Discharging'')] ''50'' ''100''"
  let ?s = "laptop_service [''capacity'', ''status''] (initial_data\<lparr>battery_percentage := Some 87\<rparr>) 1000"
  have p: "paths ?s = laptop_paths [''capacity'', ''status'']"
    and d: "battery_percentage (data ?s) = Some 87"
    and l: "last_battery_update ?s = 1000"
    by (simp_all add: laptop_service_def)
  have b: "get_backlight_percentage_internal (paths ?s) ?files = Inr (Some 50)"
    unfolding p by (rule laptop_backlight_50)
  have "\<exists>s1. update_file_data_and_notify False 1010 ?files ?s = Inr s1"
    unfolding update_file_data_and_notify_def b by (simp add: Let_def split: prod.splits)
  then obtain s1 where e: "update_file_data_and_notify False 1010 ?files ?s = Inr s1" by blast
  have w: "\<not> False \<and> (1010::rat) - last_battery_update ?s < 30" unfolding l by simp
  from battery_refresh_rate_limit [OF e] w b d l
  have "battery_percentage (data s1) = Some 87 \<and> backlight_percentage (data s1) = Some 50
      \<and> last_battery_update s1 = 1000"
    by simp
  with e show ?thesis by blast
qed

section \<open>Battery time remaining\<close>







text \<open>
  Where the division is not exact the floating-point product can fall just below an
  integer: for 13000000 and 3000000 the exact value is 15600 seconds and the daemon
  computes 15599.  This is the rounding slip of the backlight percentage again.  The
  statement below speaks of the inputs where the evaluation is exact.
\<close>

lemma discharge_time_rounding_slip:
  "scaled_quotient 13000000 3000000 3600 = Some 15599
   \<and> ((13000000::int) * 3600) div 3000000 = 15600"
proof -
  have "scaled_quotient 13000000 3000000 3600 = Some 15599" by code_simp
  then show ?thesis by simp
qed







section \<open>Backlight percentage\<close>

text \<open>
  What holds of the backlight computation whatever the numbers are: without a
  backlight directory, or when a file cannot be read or does not hold a number, the
  result is null; with a maximum that is not positive the result is 0.
\<close>

lemma backlight_no_directory:
  "\<not> (truthy (backlight_brightness_file p) \<and> truthy (backlight_max_brightness_file p)) \<Longrightarrow>
     get_backlight_percentage_internal p files = Inr None"
  by (simp add: get_backlight_percentage_internal_def)

lemma backlight_unreadable:
  "read_int files (backlight_brightness_file p) = None
     \<or> read_int files (backlight_max_brightness_file p) = None \<Longrightarrow>
   get_backlight_percentage_internal p files = Inr None"
  by (auto simp: get_backlight_percentage_internal_def split: option.splits)

lemma backlight_max_not_positive:
  "truthy (backlight_brightness_file p) \<Longrightarrow> truthy (backlight_max_brightness_file p) \<Longrightarrow>
   read_int files (backlight_brightness_file p) = Some current \<Longrightarrow>
   read_int files (backlight_max_brightness_file p) = Some max_val \<Longrightarrow> max_val \<le> 0 \<Longrightarrow>
   get_backlight_percentage_internal p files = Inr (Some 0)"
  by (simp add: get_backlight_percentage_internal_def)

lemma read_int_non_numeric:
  "read_int (laptop_files [] ''bright'' ''100'') (Some brightness_path) = None"
  by (simp add: read_eval)

lemma sq_29: "scaled_quotient 29 100 100 = Some 28"
  by code_simp

text \<open>
  Claim C10.  With both files present and readable and a positive maximum the
  result should be the percentage rounded down, \<open>floor(current / max * 100)\<close>.  For a
  brightness of 29 out of 100 that is 29.  The daemon divides and multiplies in
  binary floating point and truncates: \<open>29 / 100\<close> is the float just below 0.29, its
  product with 100 is the float just below 29, and the result is 28.
\<close>

theorem backlight_29_of_100:
  "get_backlight_percentage_internal (laptop_paths []) (laptop_files [] ''29'' ''100'')
     = Inr (Some 28)"
  by (simp add: get_backlight_percentage_internal_def read_eval sq_29)

section \<open>Single instance\<close>




end
